theory Spec2Isabelle
  imports Complex_Main "HOL-Library.Word" "HOL-Library.Multiset"
begin

section \<open>Data model of the indexer's DEX read model\<close>

text \<open>
  Go's \<open>uint64\<close> and \<open>int64\<close> are 64-bit words: \<open>+\<close> and \<open>-\<close> wrap around. An
  \<open>int64\<close> is the word of its two's complement bit pattern, read with \<open>sint\<close>; a
  conversion between \<open>uint64\<close> and \<open>int64\<close> keeps the bit pattern, so it is the identity
  on words.
  A finite \<open>float64\<close> is denoted by the rational number it is equal to.
\<close>

type_synonym u64 = "64 word"
type_synonym i64 = "64 word"
type_synonym float64 = rat

text \<open>
  \<open>PoolInfo\<close> of package indexer. Its declaration is not among the sources at hand; the
  fields are the ones \<open>handleDexRouterEvent\<close> and \<open>updateLiquidityPosition\<close> read and
  write, with the types of the values assigned to them.
\<close>

record PoolInfo =
  ID :: string
  Asset0 :: string
  Asset1 :: string
  Reserve0 :: u64
  Reserve1 :: u64
  Fee :: float64
  TotalSupply :: u64

text \<open>A value stored under a key of \<open>TransactionInfo.Details\<close> (\<open>interface{}\<close>).\<close>

datatype detail = DString string | DFloat64 float64 | DUint64 u64 | DInt64 i64

text \<open>
  \<open>Details\<close> is a Go map built by a literal; it is kept as the list of its entries in the
  order of the literal, \<open>[]\<close> for the nil map.
\<close>

record TransactionInfo =
  tx_ID :: string
  tx_Type :: string
  tx_PoolID :: string
  tx_User :: string
  tx_BlockHeight :: u64
  tx_Timestamp :: string
  tx_Details :: "(string \<times> detail) list"

record LiquidityPosition =
  User :: string
  PoolID :: string
  Amount :: u64
  Share :: float64

text \<open>
  \<open>DexReadModel\<close> without its lock. A slice stored in \<open>positions\<close> is reachable only
  through that map (every slice handed to a caller is a fresh copy), so it is kept as the
  list of its elements; a pool id without an entry is \<open>None\<close>.
\<close>

record DexReadModel =
  pools :: "string \<rightharpoonup> PoolInfo"
  transactions :: "TransactionInfo list"
  positions :: "string \<rightharpoonup> LiquidityPosition list"

definition NewDexReadModel :: DexReadModel where
  "NewDexReadModel = \<lparr>pools = Map.empty, transactions = [], positions = Map.empty\<rparr>"

subsection \<open>Events\<close>

text \<open>The anonymous argument structs of \<open>handleDexRouterEvent\<close>, one per method.\<close>

record pool_created_args =
  pc_PoolID :: string
  pc_Asset0 :: string
  pc_Asset1 :: string
  pc_Fee :: float64

record liquidity_added_args =
  la_PoolID :: string
  la_User :: string
  la_Amount0 :: u64
  la_Amount1 :: u64
  la_LPTokens :: u64

record liquidity_removed_args =
  lr_PoolID :: string
  lr_User :: string
  lr_Amount0 :: u64
  lr_Amount1 :: u64
  lr_LPTokens :: u64

record swap_executed_args =
  sw_PoolID :: string
  sw_User :: string
  sw_Amount0 :: i64
  sw_Amount1 :: i64
  sw_AmountIn :: u64
  sw_AmountOut :: u64
  sw_AssetIn :: string
  sw_AssetOut :: string

text \<open>
  \<open>event.Args\<close> is a raw JSON payload, and \<open>json.Unmarshal\<close> belongs to Go's standard
  library, not to this repository. The payload is therefore kept as what
  \<open>json.Unmarshal\<close> makes of it at each of the four argument structs: the filled struct,
  or \<open>None\<close> where \<open>Unmarshal\<close> returns an error (the payload is malformed for that struct).
\<close>

record RawArgs =
  unmarshal_pool_created :: "pool_created_args option"
  unmarshal_liquidity_added :: "liquidity_added_args option"
  unmarshal_liquidity_removed :: "liquidity_removed_args option"
  unmarshal_swap_executed :: "swap_executed_args option"

text \<open>
  \<open>VSCEvent\<close>: its declaration is not among the sources at hand either; these are the fields
  \<open>HandleEvent\<close> and \<open>handleDexRouterEvent\<close> read.
\<close>

record VSCEvent =
  Contract :: string
  Method :: string
  Args :: RawArgs
  BlockHeight :: u64
  TxID :: string

datatype error = UnmarshalError

section \<open>float64 arithmetic\<close>

text \<open>
  IEEE 754 binary64 with round-to-nearest, ties-to-even, on the rationals: \<open>bits n\<close> is the
  length of \<open>n\<close> in binary, \<open>ilog2 x\<close> is the integer part of the binary logarithm of a
  positive \<open>x\<close>, \<open>rne\<close> rounds to the nearest integer (ties to even) and \<open>round64 x\<close>
  is the binary64 number nearest to \<open>x\<close>: 53 significant bits, the exponent of the last
  place not below \<open>-1074\<close> (subnormal numbers). Overflow is not part of \<open>round64\<close>:
  \<open>fits64\<close> says that the rounded value is finite.
\<close>

fun bits :: "nat \<Rightarrow> nat" where
  "bits n = (if n = 0 then 0 else Suc (bits (n div 2)))"

declare bits.simps [simp del]

definition ilog2 :: "rat \<Rightarrow> int" where
  "ilog2 x =
     (let (p, q) = quotient_of x;
          k = int (bits (nat p)) - int (bits (nat q))
      in if 2 powi k \<le> x then k else k - 1)"

definition rne :: "rat \<Rightarrow> int" where
  "rne x =
     (let f = \<lfloor>x\<rfloor>; d = x - of_int f
      in if d < 1 / 2 then f
         else if 1 / 2 < d then f + 1
         else if even f then f else f + 1)"

definition round64 :: "rat \<Rightarrow> float64" where
  "round64 x =
     (if x = 0 then 0
      else let a = \<bar>x\<bar>;
               e = max (ilog2 a - 52) (- 1074)
           in sgn x * (of_int (rne (a / 2 powi e)) * 2 powi e))"

definition fits64 :: "rat \<Rightarrow> bool" where
  "fits64 x = (\<bar>round64 x\<bar> < 2 ^ 1024)"

section \<open>The event handlers\<close>

text \<open>
  \<open>updateLiquidityPosition\<close>, first loop: the first position of \<open>user\<close> is changed and
  the loop stops there. The second component is the flag \<open>found\<close>.
\<close>

fun update_first :: "string \<Rightarrow> u64 \<Rightarrow> bool \<Rightarrow> LiquidityPosition list
    \<Rightarrow> LiquidityPosition list \<times> bool" where
  "update_first user amount isAdd [] = ([], False)"
| "update_first user amount isAdd (pos # rest) =
     (if User pos = user
      then ((if isAdd then pos\<lparr>Amount := Amount pos + amount\<rparr>
             else if Amount pos > amount then pos\<lparr>Amount := Amount pos - amount\<rparr>
             else pos\<lparr>Amount := 0\<rparr>) # rest, True)
      else (let (rest', found) = update_first user amount isAdd rest
            in (pos # rest', found)))"

text \<open>
  \<open>float64(positions[i].Amount) / float64(totalLP) * 100\<close>: the two conversions, the
  division and the multiplication each round.
\<close>

definition share_of :: "u64 \<Rightarrow> u64 \<Rightarrow> float64" where
  "share_of amount totalLP =
     (if totalLP > 0
      then round64 (round64 (round64 (of_nat (unat amount)) / round64 (of_nat (unat totalLP))) * 100)
      else 0)"

definition updateLiquidityPosition :: "DexReadModel \<Rightarrow> string \<Rightarrow> string \<Rightarrow> u64 \<Rightarrow> bool
    \<Rightarrow> DexReadModel" where
  "updateLiquidityPosition dm poolID user amount isAdd =
     (let positions0 = (case positions dm poolID of None \<Rightarrow> [] | Some ps \<Rightarrow> ps);
          (positions1, found) = update_first user amount isAdd positions0;
          positions2 = (if \<not> found \<and> isAdd \<and> amount > 0
                        then positions1 @ [\<lparr>User = user, PoolID = poolID, Amount = amount, Share = 0\<rparr>]
                        else positions1);
          totalLP = (case pools dm poolID of None \<Rightarrow> 0 | Some pool \<Rightarrow> TotalSupply pool);
          positions3 = map (\<lambda>pos. pos\<lparr>Share := share_of (Amount pos) totalLP\<rparr>) positions2
      in dm\<lparr>positions := (positions dm)(poolID \<mapsto> positions3)\<rparr>)"

text \<open>The end of \<open>handleDexRouterEvent\<close>: append, and drop the oldest record beyond 1000.\<close>

definition add_transaction :: "DexReadModel \<Rightarrow> TransactionInfo \<Rightarrow> DexReadModel" where
  "add_transaction dm txInfo =
     (let txs = transactions dm @ [txInfo]
      in dm\<lparr>transactions := (if length txs > 1000 then tl txs else txs)\<rparr>)"

definition new_txInfo :: "VSCEvent \<Rightarrow> TransactionInfo" where
  "new_txInfo event =
     \<lparr>tx_ID = TxID event, tx_Type = [], tx_PoolID = [], tx_User = [],
      tx_BlockHeight = BlockHeight event, tx_Timestamp = [], tx_Details = []\<rparr>"

definition on_pool_created :: "DexReadModel \<Rightarrow> pool_created_args \<Rightarrow> DexReadModel" where
  "on_pool_created dm args =
     dm\<lparr>pools := (pools dm)(pc_PoolID args \<mapsto>
        \<lparr>ID = pc_PoolID args, Asset0 = pc_Asset0 args, Asset1 = pc_Asset1 args,
         Reserve0 = 0, Reserve1 = 0, Fee = pc_Fee args, TotalSupply = 0\<rparr>)\<rparr>"

definition on_liquidity_added :: "DexReadModel \<Rightarrow> liquidity_added_args \<Rightarrow> DexReadModel" where
  "on_liquidity_added dm args =
     (case pools dm (la_PoolID args) of
        None \<Rightarrow> dm
      | Some pool \<Rightarrow>
          (let lpTokens = (if la_LPTokens args = 0 then la_Amount0 args else la_LPTokens args);
               pool' = pool\<lparr>Reserve0 := Reserve0 pool + la_Amount0 args,
                            Reserve1 := Reserve1 pool + la_Amount1 args,
                            TotalSupply := TotalSupply pool + lpTokens\<rparr>;
               dm' = dm\<lparr>pools := (pools dm)(la_PoolID args \<mapsto> pool')\<rparr>
           in if la_User args \<noteq> []
              then updateLiquidityPosition dm' (la_PoolID args) (la_User args) lpTokens True
              else dm'))"

definition on_liquidity_removed :: "DexReadModel \<Rightarrow> liquidity_removed_args \<Rightarrow> DexReadModel" where
  "on_liquidity_removed dm args =
     (case pools dm (lr_PoolID args) of
        None \<Rightarrow> dm
      | Some pool \<Rightarrow>
          (let pool' = pool\<lparr>Reserve0 := Reserve0 pool - lr_Amount0 args,
                            Reserve1 := Reserve1 pool - lr_Amount1 args,
                            TotalSupply := TotalSupply pool - lr_LPTokens args\<rparr>;
               dm' = dm\<lparr>pools := (pools dm)(lr_PoolID args \<mapsto> pool')\<rparr>
           in updateLiquidityPosition dm' (lr_PoolID args) (lr_User args) (lr_LPTokens args) False))"

text \<open>
  In \<open>uint64(int64(pool.Reserve0) + args.Amount0)\<close> both conversions keep the bit pattern
  and the addition of \<open>int64\<close> wraps around: it is the addition of 64-bit words.
\<close>

definition on_swap_executed :: "DexReadModel \<Rightarrow> swap_executed_args \<Rightarrow> DexReadModel" where
  "on_swap_executed dm args =
     (case pools dm (sw_PoolID args) of
        None \<Rightarrow> dm
      | Some pool \<Rightarrow>
          (let pool' =
                 (if sw_Amount0 args \<noteq> 0 \<or> sw_Amount1 args \<noteq> 0
                  then pool\<lparr>Reserve0 := Reserve0 pool + sw_Amount0 args,
                            Reserve1 := Reserve1 pool + sw_Amount1 args\<rparr>
                  else if sw_AssetIn args = Asset0 pool
                  then pool\<lparr>Reserve0 := Reserve0 pool + sw_AmountIn args,
                            Reserve1 := Reserve1 pool - sw_AmountOut args\<rparr>
                  else pool\<lparr>Reserve1 := Reserve1 pool + sw_AmountIn args,
                            Reserve0 := Reserve0 pool - sw_AmountOut args\<rparr>)
           in dm\<lparr>pools := (pools dm)(sw_PoolID args \<mapsto> pool')\<rparr>))"

definition handleDexRouterEvent :: "DexReadModel \<Rightarrow> VSCEvent \<Rightarrow> error option \<times> DexReadModel" where
  "handleDexRouterEvent dm event =
     (let txInfo = new_txInfo event in
      if Method event = ''pool_created'' then
        (case unmarshal_pool_created (Args event) of
           None \<Rightarrow> (Some UnmarshalError, dm)
         | Some args \<Rightarrow>
             (None, add_transaction (on_pool_created dm args)
                (txInfo\<lparr>tx_Type := ''pool_created'', tx_PoolID := pc_PoolID args,
                   tx_Details := [(''asset0'', DString (pc_Asset0 args)),
                                  (''asset1'', DString (pc_Asset1 args)),
                                  (''fee'', DFloat64 (pc_Fee args))]\<rparr>)))
      else if Method event = ''liquidity_added'' then
        (case unmarshal_liquidity_added (Args event) of
           None \<Rightarrow> (Some UnmarshalError, dm)
         | Some args \<Rightarrow>
             (None, add_transaction (on_liquidity_added dm args)
                (txInfo\<lparr>tx_Type := ''deposit'', tx_PoolID := la_PoolID args,
                   tx_User := la_User args,
                   tx_Details := [(''amount0'', DUint64 (la_Amount0 args)),
                                  (''amount1'', DUint64 (la_Amount1 args)),
                                  (''lp_tokens'', DUint64 (la_LPTokens args))]\<rparr>)))
      else if Method event = ''liquidity_removed'' then
        (case unmarshal_liquidity_removed (Args event) of
           None \<Rightarrow> (Some UnmarshalError, dm)
         | Some args \<Rightarrow>
             (None, add_transaction (on_liquidity_removed dm args)
                (txInfo\<lparr>tx_Type := ''withdrawal'', tx_PoolID := lr_PoolID args,
                   tx_User := lr_User args,
                   tx_Details := [(''amount0'', DUint64 (lr_Amount0 args)),
                                  (''amount1'', DUint64 (lr_Amount1 args)),
                                  (''lp_tokens'', DUint64 (lr_LPTokens args))]\<rparr>)))
      else if Method event = ''swap_executed'' then
        (case unmarshal_swap_executed (Args event) of
           None \<Rightarrow> (Some UnmarshalError, dm)
         | Some args \<Rightarrow>
             (None, add_transaction (on_swap_executed dm args)
                (txInfo\<lparr>tx_Type := ''swap'', tx_PoolID := sw_PoolID args,
                   tx_User := sw_User args,
                   tx_Details := [(''amount0'', DInt64 (sw_Amount0 args)),
                                  (''amount1'', DInt64 (sw_Amount1 args)),
                                  (''amount_in'', DUint64 (sw_AmountIn args)),
                                  (''amount_out'', DUint64 (sw_AmountOut args)),
                                  (''asset_in'', DString (sw_AssetIn args)),
                                  (''asset_out'', DString (sw_AssetOut args))]\<rparr>)))
      else (None, add_transaction dm txInfo))"

definition HandleEvent :: "DexReadModel \<Rightarrow> VSCEvent \<Rightarrow> error option \<times> DexReadModel" where
  "HandleEvent dm event =
     (if Contract event = ''dex-router'' then handleDexRouterEvent dm event else (None, dm))"

text \<open>
  Events are applied in the order of their arrival; an event that returns an error is
  dropped and the next one is applied to the state it left.
\<close>

definition HandleEvents :: "DexReadModel \<Rightarrow> VSCEvent list \<Rightarrow> DexReadModel" where
  "HandleEvents dm events = foldl (\<lambda>d e. snd (HandleEvent d e)) dm events"

section \<open>Queries\<close>

datatype panic = NilDereference | NegativeLength | SliceBounds

text \<open>
  \<open>QueryLiquidityPositions\<close> copies the stored slice into a new one: the result is the list
  of the stored elements, and the read model is not written.
\<close>

definition QueryLiquidityPositions :: "DexReadModel \<Rightarrow> string \<Rightarrow> LiquidityPosition list" where
  "QueryLiquidityPositions dm poolID =
     (case positions dm poolID of None \<Rightarrow> [] | Some ps \<Rightarrow> ps)"

text \<open>
  The sort of \<open>QueryRichList\<close>: the inner loop over \<open>j\<close> for a fixed \<open>i\<close>, and the outer
  loop over \<open>i\<close>. \<open>i < len(positions)-1\<close> on Go's signed \<open>int\<close> is \<open>i + 1 < length xs\<close>.
\<close>

function rich_inner :: "nat \<Rightarrow> nat \<Rightarrow> LiquidityPosition list \<Rightarrow> LiquidityPosition list" where
  "rich_inner i j xs =
     (if j < length xs
      then rich_inner i (j + 1)
             (if Amount (xs ! i) < Amount (xs ! j) then xs[i := xs ! j, j := xs ! i] else xs)
      else xs)"
  by pat_completeness auto
termination
  by (relation "measure (\<lambda>(i, j, xs). length xs - j)") auto

declare rich_inner.simps [simp del]

function rich_outer :: "nat \<Rightarrow> LiquidityPosition list \<Rightarrow> LiquidityPosition list" where
  "rich_outer i xs =
     (if i + 1 < length xs then rich_outer (i + 1) (rich_inner i (i + 1) xs) else xs)"
  by pat_completeness auto
termination
proof (relation "measure (\<lambda>(i, xs). length xs - i)")
  show "wf (measure (\<lambda>(i, xs). length xs - i))" by simp
next
  fix i :: nat and xs :: "LiquidityPosition list"
  assume less: "i + 1 < length xs"
  have len: "length (rich_inner a b ys) = length ys" for a b ys
    by (induction a b ys rule: rich_inner.induct) (subst rich_inner.simps, simp)
  show "((i + 1, rich_inner i (i + 1) xs), (i, xs)) \<in> measure (\<lambda>(i, xs). length xs - i)"
    using less by (simp add: len)
qed

declare rich_outer.simps [simp del]

text \<open>Go's \<open>int\<close> is taken to be 64 bits wide: \<open>offset + limit\<close> wraps around.\<close>

definition wrap_int64 :: "int \<Rightarrow> int" where
  "wrap_int64 x = (x + 2 ^ 63) mod 2 ^ 64 - 2 ^ 63"

text \<open>
  The pagination of \<open>QueryRichList\<close>, on the sorted slice: \<open>make\<close> panics on a negative
  length and the slice expression \<open>positions[start:end]\<close> on a negative \<open>start\<close>.
\<close>

definition paginate :: "LiquidityPosition list \<Rightarrow> int \<Rightarrow> int \<Rightarrow> panic + LiquidityPosition list" where
  "paginate ps offset limit =
     (let start = offset;
          end0 = wrap_int64 (offset + limit);
          n = int (length ps)
      in if start \<ge> n then Inr []
         else (let end1 = (if end0 > n then n else end0)
               in if end1 - start < 0 then Inl NegativeLength
                  else if start < 0 then Inl SliceBounds
                  else Inr (take (nat (end1 - start)) (drop (nat start) ps))))"

text \<open>
  \<open>QueryRichList\<close>. \<open>positions\<close> is the slice stored in the map: it shares its array with
  the read model, and the sort swaps the elements of that array in place. The read model
  after the call is therefore the second component of the result.
\<close>

definition QueryRichList :: "DexReadModel \<Rightarrow> string \<Rightarrow> int \<Rightarrow> int
    \<Rightarrow> (panic + LiquidityPosition list) \<times> DexReadModel" where
  "QueryRichList dm poolID offset limit =
     (case positions dm poolID of
        None \<Rightarrow> (Inr [], dm)
      | Some ps \<Rightarrow>
          (let sorted = rich_outer 0 ps
           in (paginate sorted offset limit,
               dm\<lparr>positions := (positions dm)(poolID \<mapsto> sorted)\<rparr>)))"

section \<open>The router's pool querier over the indexer API\<close>

record IndexerPoolInfo =
  ip_ID :: string
  ip_Asset0 :: string
  ip_Asset1 :: string
  ip_Reserve0 :: u64
  ip_Reserve1 :: u64
  ip_Fee :: float64
  ip_TotalSupply :: u64

text \<open>
  \<open>PoolInfoWithReserves\<close> of package router: its declaration is not among the sources at
  hand; these are the fields \<open>GetPoolByID\<close> fills.
\<close>

record PoolInfoWithReserves =
  pr_ContractId :: string
  pr_Asset0 :: string
  pr_Asset1 :: string
  pr_Reserve0 :: u64
  pr_Reserve1 :: u64
  pr_Fee :: u64

text \<open>
  A JSON number is decoded into a \<open>float64\<close> field by \<open>strconv.ParseFloat\<close>: the nearest
  \<open>float64\<close>, an error when that is beyond the largest finite one. The argument is the
  value of the decimal literal.
\<close>

definition ParseFloat :: "rat \<Rightarrow> float64 option" where
  "ParseFloat x = (if fits64 x then Some (round64 x) else None)"

text \<open>
  \<open>uint64(indexerPool.Fee * 100)\<close>: the product is rounded to a \<open>float64\<close>, the conversion
  drops the fraction. Go leaves the result of the conversion to the implementation where
  the truncated value is not a \<open>uint64\<close> (a negative value, or one of \<open>2 ^ 64\<close> and more);
  this is \<open>None\<close>.
\<close>

definition fee_to_bps :: "float64 \<Rightarrow> u64 option" where
  "fee_to_bps fee =
     (let product = round64 (fee * 100);
          t = (if product < 0 then - \<lfloor>- product\<rfloor> else \<lfloor>product\<rfloor>)
      in if 0 \<le> t \<and> t < 2 ^ 64 then Some (word_of_int t) else None)"

text \<open>
  The answer of the indexer to the HTTP request: the request fails, or it returns a status
  code and a body; the body is kept as what the JSON decoder makes of it at the target
  type, \<open>None\<close> where the decoder returns an error.
\<close>

datatype 'a http_reply = GetFailed | Reply nat "'a option"

datatype querier_error = QueryFailed | PoolNotFound | BadStatus nat | DecodeFailed
  | ConversionUnspecified

definition to_router_pool :: "IndexerPoolInfo \<Rightarrow> PoolInfoWithReserves option" where
  "to_router_pool indexerPool =
     map_option (\<lambda>feeBps.
        \<lparr>pr_ContractId = ip_ID indexerPool, pr_Asset0 = ip_Asset0 indexerPool,
         pr_Asset1 = ip_Asset1 indexerPool, pr_Reserve0 = ip_Reserve0 indexerPool,
         pr_Reserve1 = ip_Reserve1 indexerPool, pr_Fee = feeBps\<rparr>)
       (fee_to_bps (ip_Fee indexerPool))"

definition GetPoolByID :: "IndexerPoolInfo http_reply \<Rightarrow> querier_error + PoolInfoWithReserves" where
  "GetPoolByID reply =
     (case reply of
        GetFailed \<Rightarrow> Inl QueryFailed
      | Reply status body \<Rightarrow>
          if status = 404 then Inl PoolNotFound
          else if status \<noteq> 200 then Inl (BadStatus status)
          else (case body of
                  None \<Rightarrow> Inl DecodeFailed
                | Some indexerPool \<Rightarrow>
                    (case to_router_pool indexerPool of
                       None \<Rightarrow> Inl ConversionUnspecified
                     | Some pool \<Rightarrow> Inr pool)))"

definition GetPoolsByAsset :: "IndexerPoolInfo list http_reply \<Rightarrow> string
    \<Rightarrow> querier_error + PoolInfoWithReserves list" where
  "GetPoolsByAsset reply asset =
     (case reply of
        GetFailed \<Rightarrow> Inl QueryFailed
      | Reply status body \<Rightarrow>
          if status \<noteq> 200 then Inl (BadStatus status)
          else (case body of
                  None \<Rightarrow> Inl DecodeFailed
                | Some indexerPools \<Rightarrow>
                    (case those (map to_router_pool
                            (filter (\<lambda>p. ip_Asset0 p = asset \<or> ip_Asset1 p = asset) indexerPools)) of
                       None \<Rightarrow> Inl ConversionUnspecified
                     | Some matchingPools \<Rightarrow> Inr matchingPools)))"

section \<open>The router service\<close>

record SwapParams =
  Sender :: string
  AmountIn :: i64
  AssetIn :: string
  AssetOut :: string
  MinAmountOut :: i64
  MaxSlippage :: u64
  MiddleOutRatio :: float64
  Beneficiary :: string
  RefBps :: u64

record SwapResult =
  res_Success :: bool
  res_AmountOut :: i64
  res_Fee :: i64
  res_Route :: "string list"
  res_ErrorMessage :: string

record Intent =
  intent_Type :: string
  intent_Args :: "(string \<times> string) list"

text \<open>A value of the payload map handed to \<open>json.Marshal\<close>.\<close>

datatype payload_value = PString string | PInt int

text \<open>
  \<open>DEXExecutor.ExecuteDexOperationWithIntents\<close> is an interface method implemented outside
  the router: a function of the operation type, the payload and the intents that returns
  the error message, \<open>None\<close> for a nil error. The payload is kept as the entries of the map
  before marshalling (marshalling a map of strings and integers does not fail).
\<close>

type_synonym DEXExecutor =
  "string \<Rightarrow> (string \<times> payload_value) list \<Rightarrow> Intent list \<Rightarrow> string option"

text \<open>\<open>fmt.Sprintf("%d", n)\<close>: the decimal digits, with a minus sign for a negative \<open>n\<close>.\<close>

fun dec_nat :: "nat \<Rightarrow> string" where
  "dec_nat n =
     (if n < 10 then [char_of (48 + n)] else dec_nat (n div 10) @ [char_of (48 + n mod 10)])"

declare dec_nat.simps [simp del]

definition dec_int :: "int \<Rightarrow> string" where
  "dec_int i = (if i < 0 then CHR ''-'' # dec_nat (nat (- i)) else dec_nat (nat i))"

definition failed :: "string \<Rightarrow> SwapResult" where
  "failed msg =
     \<lparr>res_Success = False, res_AmountOut = 0, res_Fee = 0, res_Route = [],
      res_ErrorMessage = msg\<rparr>"

text \<open>
  \<open>ExecuteSwap\<close> returns a result and a Go error; the error is \<open>nil\<close> on every path
  (\<open>None\<close>). A nil \<open>dexExecutor\<close> (\<open>None\<close>) makes the call of its method panic.
\<close>

definition ExecuteSwap :: "DEXExecutor option \<Rightarrow> SwapParams
    \<Rightarrow> panic + (SwapResult \<times> string option)" where
  "ExecuteSwap dexExecutor params =
     (if AssetIn params = AssetOut params
      then Inr (failed ''cannot swap asset to itself'', None)
      else
        (let payload =
               [(''type'', PString ''swap''), (''version'', PString ''1.0.0''),
                (''asset_in'', PString (AssetIn params)),
                (''asset_out'', PString (AssetOut params)),
                (''recipient'', PString (Sender params)),
                (''min_amount_out'', PInt (sint (MinAmountOut params)))]
               @ (if MaxSlippage params > 0
                  then [(''slippage_bps'', PInt (sint (MaxSlippage params)))] else [])
               @ (if Beneficiary params \<noteq> []
                  then [(''beneficiary'', PString (Beneficiary params))] else [])
               @ (if RefBps params > 0
                  then [(''ref_bps'', PInt (sint (RefBps params)))] else []);
             intents =
               [\<lparr>intent_Type = ''transfer.allow'',
                 intent_Args = [(''limit'', dec_int (sint (AmountIn params))),
                                (''token'', AssetIn params)]\<rparr>]
         in case dexExecutor of
              None \<Rightarrow> Inl NilDereference
            | Some execute \<Rightarrow>
                (case execute ''execute'' payload intents of
                   Some err \<Rightarrow> Inr (failed (''swap execution failed: '' @ err), None)
                 | None \<Rightarrow>
                     Inr (\<lparr>res_Success = True, res_AmountOut = MinAmountOut params,
                           res_Fee = 0, res_Route = [''direct''],
                           res_ErrorMessage = []\<rparr>, None))))"

definition ComputeRoute :: "DEXExecutor option \<Rightarrow> SwapParams
    \<Rightarrow> panic + (SwapResult \<times> string option)" where
  "ComputeRoute dexExecutor params = ExecuteSwap dexExecutor params"

section \<open>Notions used in the statements\<close>

text \<open>
  The positions stored for a pool are read with \<open>QueryLiquidityPositions\<close>. The sum of
  their amounts is a natural number (it can exceed \<open>2 ^ 64\<close>).
\<close>

definition sum_amounts :: "LiquidityPosition list \<Rightarrow> nat" where
  "sum_amounts ps = sum_list (map (\<lambda>pos. unat (Amount pos)) ps)"

text \<open>The amount of the position that \<open>updateLiquidityPosition\<close> finds for a user.\<close>

fun first_amount :: "string \<Rightarrow> LiquidityPosition list \<Rightarrow> u64" where
  "first_amount user [] = 0"
| "first_amount user (pos # rest) =
     (if User pos = user then Amount pos else first_amount user rest)"

text \<open>
  The total supply of a pool matches its positions when it is the sum of their amounts
  modulo \<open>2 ^ 64\<close>. A pool id without a pool has nothing to match.
\<close>

definition supply_matches :: "DexReadModel \<Rightarrow> string \<Rightarrow> bool" where
  "supply_matches dm poolID =
     (case pools dm poolID of
        None \<Rightarrow> True
      | Some pool \<Rightarrow>
          sum_amounts (QueryLiquidityPositions dm poolID) mod 2 ^ 64 = unat (TotalSupply pool))"

text \<open>
  A deposit that names its user, and a withdrawal of no more LP tokens than the position
  of its user holds in the state it is applied to.
\<close>

definition deposit_with_user :: "VSCEvent \<Rightarrow> bool" where
  "deposit_with_user event =
     (Contract event = ''dex-router'' \<and> Method event = ''liquidity_added'' \<and>
      (case unmarshal_liquidity_added (Args event) of
         None \<Rightarrow> False
       | Some args \<Rightarrow> la_User args \<noteq> []))"

definition covered_withdrawal :: "DexReadModel \<Rightarrow> VSCEvent \<Rightarrow> bool" where
  "covered_withdrawal dm event =
     (Contract event = ''dex-router'' \<and> Method event = ''liquidity_removed'' \<and>
      (case unmarshal_liquidity_removed (Args event) of
         None \<Rightarrow> False
       | Some args \<Rightarrow>
           lr_LPTokens args
             \<le> first_amount (lr_User args) (QueryLiquidityPositions dm (lr_PoolID args))))"

fun balanced :: "DexReadModel \<Rightarrow> VSCEvent list \<Rightarrow> bool" where
  "balanced dm [] = True"
| "balanced dm (event # events) =
     ((deposit_with_user event \<or> covered_withdrawal dm event) \<and>
      balanced (snd (HandleEvent dm event)) events)"

text \<open>
  The payload of an event is malformed when \<open>json.Unmarshal\<close> fails at the argument struct
  of the event's method. An event of another method has no argument struct.
\<close>

definition malformed :: "VSCEvent \<Rightarrow> bool" where
  "malformed event =
     ((Method event = ''pool_created'' \<and> unmarshal_pool_created (Args event) = None) \<or>
      (Method event = ''liquidity_added'' \<and> unmarshal_liquidity_added (Args event) = None) \<or>
      (Method event = ''liquidity_removed'' \<and> unmarshal_liquidity_removed (Args event) = None) \<or>
      (Method event = ''swap_executed'' \<and> unmarshal_swap_executed (Args event) = None))"

text \<open>The transaction record of an event: the one it leaves in an empty history.\<close>

definition recorded :: "VSCEvent \<Rightarrow> TransactionInfo" where
  "recorded event = hd (transactions (snd (handleDexRouterEvent NewDexReadModel event)))"

text \<open>
  The order the specification asks of the rich list: by amount descending, ties by user
  identifier ascending (strings compared byte by byte), and the list it asks for.
\<close>

fun string_le :: "string \<Rightarrow> string \<Rightarrow> bool" where
  "string_le [] t = True"
| "string_le (c # cs) [] = False"
| "string_le (c # cs) (d # ds) =
     ((of_char c :: nat) < of_char d \<or> (c = d \<and> string_le cs ds))"

definition richer :: "LiquidityPosition \<Rightarrow> LiquidityPosition \<Rightarrow> bool" where
  "richer a b =
     (Amount b < Amount a \<or> (Amount a = Amount b \<and> string_le (User a) (User b)))"

fun insert_richer :: "LiquidityPosition \<Rightarrow> LiquidityPosition list \<Rightarrow> LiquidityPosition list" where
  "insert_richer a [] = [a]"
| "insert_richer a (b # bs) = (if richer a b then a # b # bs else b # insert_richer a bs)"

definition spec_rich_list :: "LiquidityPosition list \<Rightarrow> nat \<Rightarrow> nat \<Rightarrow> LiquidityPosition list" where
  "spec_rich_list ps offset limit = take limit (drop offset (foldr insert_richer ps []))"

subsection \<open>Events for the examples\<close>

text \<open>
  An event of the DEX router whose payload decodes at the argument struct of its method;
  the other three entries of \<open>Args\<close> are not read for that method.
\<close>

definition pool_created_event :: "string \<Rightarrow> u64 \<Rightarrow> pool_created_args \<Rightarrow> VSCEvent" where
  "pool_created_event txid height args =
     \<lparr>Contract = ''dex-router'', Method = ''pool_created'',
      Args = \<lparr>unmarshal_pool_created = Some args, unmarshal_liquidity_added = None,
              unmarshal_liquidity_removed = None, unmarshal_swap_executed = None\<rparr>,
      BlockHeight = height, TxID = txid\<rparr>"

definition liquidity_added_event :: "string \<Rightarrow> u64 \<Rightarrow> liquidity_added_args \<Rightarrow> VSCEvent" where
  "liquidity_added_event txid height args =
     \<lparr>Contract = ''dex-router'', Method = ''liquidity_added'',
      Args = \<lparr>unmarshal_pool_created = None, unmarshal_liquidity_added = Some args,
              unmarshal_liquidity_removed = None, unmarshal_swap_executed = None\<rparr>,
      BlockHeight = height, TxID = txid\<rparr>"

definition liquidity_removed_event :: "string \<Rightarrow> u64 \<Rightarrow> liquidity_removed_args \<Rightarrow> VSCEvent" where
  "liquidity_removed_event txid height args =
     \<lparr>Contract = ''dex-router'', Method = ''liquidity_removed'',
      Args = \<lparr>unmarshal_pool_created = None, unmarshal_liquidity_added = None,
              unmarshal_liquidity_removed = Some args, unmarshal_swap_executed = None\<rparr>,
      BlockHeight = height, TxID = txid\<rparr>"

definition swap_executed_event :: "string \<Rightarrow> u64 \<Rightarrow> swap_executed_args \<Rightarrow> VSCEvent" where
  "swap_executed_event txid height args =
     \<lparr>Contract = ''dex-router'', Method = ''swap_executed'',
      Args = \<lparr>unmarshal_pool_created = None, unmarshal_liquidity_added = None,
              unmarshal_liquidity_removed = None, unmarshal_swap_executed = Some args\<rparr>,
      BlockHeight = height, TxID = txid\<rparr>"

text \<open>The pool (HBD, HIVE) with a fee of 8, created under the id \<open>p1\<close>.\<close>

definition create_p1 :: VSCEvent where
  "create_p1 = pool_created_event ''tx1'' 1
     \<lparr>pc_PoolID = ''p1'', pc_Asset0 = ''HBD'', pc_Asset1 = ''HIVE'', pc_Fee = 8\<rparr>"

definition deposit_p1 :: "string \<Rightarrow> string \<Rightarrow> u64 \<Rightarrow> VSCEvent" where
  "deposit_p1 txid user lp = liquidity_added_event txid 2
     \<lparr>la_PoolID = ''p1'', la_User = user, la_Amount0 = lp, la_Amount1 = lp, la_LPTokens = lp\<rparr>"

definition recreate_p1 :: VSCEvent where
  "recreate_p1 = pool_created_event ''tx9'' 9
     \<lparr>pc_PoolID = ''p1'', pc_Asset0 = ''BTC'', pc_Asset1 = ''HBD'', pc_Fee = 30\<rparr>"

text \<open>The \<open>n\<close>-th of a run of swap events, with its number as id and block height.\<close>

definition numbered_swap :: "nat \<Rightarrow> VSCEvent" where
  "numbered_swap n = swap_executed_event (dec_nat n) (of_nat n)
     \<lparr>sw_PoolID = ''p1'', sw_User = ''bob'', sw_Amount0 = 0, sw_Amount1 = 0, sw_AmountIn = 1,
      sw_AmountOut = 0, sw_AssetIn = ''HBD'', sw_AssetOut = ''HIVE''\<rparr>"

definition withdraw_p1 :: "string \<Rightarrow> string \<Rightarrow> u64 \<Rightarrow> VSCEvent" where
  "withdraw_p1 txid user lp = liquidity_removed_event txid 3
     \<lparr>lr_PoolID = ''p1'', lr_User = user, lr_Amount0 = lp, lr_Amount1 = lp, lr_LPTokens = lp\<rparr>"


section \<open>Facts about the float64 arithmetic\<close>

lemma bits_bounds: "0 < n \<Longrightarrow> 2 ^ (bits n - 1) \<le> n \<and> n < 2 ^ bits n"
proof (induction n rule: bits.induct)
  case (1 n)
  show ?case
  proof (cases "n div 2 = 0")
    case True
    with "1.prems" have "n = 1" by (simp add: div_eq_0_iff) 
    then show ?thesis by (simp add: bits.simps)
  next
    case False
    then have pos: "0 < n div 2" by simp
    from "1.prems" have n0: "n \<noteq> 0" by simp
    from "1.IH"[OF n0 pos] have lo: "2 ^ (bits (n div 2) - 1) \<le> n div 2"
      and hi: "n div 2 < 2 ^ bits (n div 2)" by simp_all
    have b: "bits n = Suc (bits (n div 2))" using n0 by (subst bits.simps) simp
    have bpos: "0 < bits (n div 2)" using pos by (subst bits.simps) simp
    then obtain m where m: "bits (n div 2) = Suc m" by (cases "bits (n div 2)") auto
    from lo have "2 * 2 ^ m \<le> 2 * (n div 2)" using m by simp
    also have "\<dots> \<le> n" by simp
    finally have l: "2 ^ (bits n - 1) \<le> n" using b m by simp
    from hi have "n div 2 + 1 \<le> 2 ^ bits (n div 2)" by simp
    then have "2 * (n div 2) + 2 \<le> 2 * 2 ^ bits (n div 2)" by simp
    moreover have "n < 2 * (n div 2) + 2" by presburger
    ultimately have "n < 2 ^ bits n" using b by simp
    with l show ?thesis by simp
  qed
qed

lemma bits_rat: 
  assumes "0 < (p::int)"
  shows "(2::rat) ^ bits (nat p) \<le> 2 * of_int p \<and> (of_int p :: rat) < 2 ^ bits (nat p)"
proof -
  let ?n = "nat p"
  have n: "0 < ?n" using assms by simp
  from bits_bounds[OF n] have lo: "2 ^ (bits ?n - 1) \<le> ?n" and hi: "?n < 2 ^ bits ?n" by simp_all
  have "bits ?n \<noteq> 0" using n by (subst bits.simps) simp
  then obtain m where m: "bits ?n = Suc m" by (cases "bits ?n") auto
  from lo m have "2 * 2 ^ m \<le> 2 * ?n" by simp
  then have "(of_nat (2 * 2 ^ m) :: rat) \<le> of_nat (2 * ?n)" by (simp only: of_nat_le_iff)
  then have a: "(2::rat) ^ bits ?n \<le> 2 * of_int p" using m assms by simp
  from hi have "(of_nat ?n :: rat) < of_nat (2 ^ bits ?n)" by (simp only: of_nat_less_iff)
  then have b: "(of_int p :: rat) < 2 ^ bits ?n" using assms by simp
  from a b show ?thesis by simp
qed

lemma ilog2_bounds:
  assumes "0 < x"
  shows "2 powi ilog2 x \<le> x \<and> x < 2 powi (ilog2 x + 1)"
proof -
  obtain p q where pq: "quotient_of x = (p, q)" by (cases "quotient_of x")
  have q: "0 < q" using pq by (rule quotient_of_denom_pos)
  have x: "x = of_int p / of_int q" using pq by (rule quotient_of_div)
  have p: "0 < p" using assms q x by (simp add: zero_less_divide_iff)
  define A :: rat where "A = 2 ^ bits (nat p)"
  define B :: rat where "B = 2 ^ bits (nat q)"
  define P :: rat where "P = of_int p"
  define Q :: rat where "Q = of_int q"
  have A: "A \<le> 2 * P" "P < A" using bits_rat[OF p] by (simp_all add: A_def P_def)
  have B: "B \<le> 2 * Q" "Q < B" using bits_rat[OF q] by (simp_all add: B_def Q_def)
  have pos: "0 < A" "0 < B" "0 < P" "0 < Q" using p q by (simp_all add: A_def B_def P_def Q_def)
  define k0 where "k0 = int (bits (nat p)) - int (bits (nat q))"
  have k0: "2 powi k0 = A / B"
    by (simp add: k0_def power_int_diff A_def B_def)
  have k0p: "2 powi (k0 + 1) = 2 * A / B"
    by (simp add: power_int_add k0)
  have k0m: "2 powi (k0 - 1) = A / (2 * B)"
    by (simp add: power_int_diff k0)
  have xPQ: "x = P / Q" by (simp add: x P_def Q_def)
  have "P * B < A * (2 * Q)"
  proof -
    have "P * B \<le> P * (2 * Q)" using B(1) pos by simp
    also have "\<dots> < A * (2 * Q)" using A(2) pos by simp
    finally show ?thesis .
  qed
  then have "P / Q < 2 * A / B" using pos by (simp add: field_simps)
  then have up: "x < 2 powi (k0 + 1)" by (simp only: k0p xPQ)
  have "A * Q \<le> (2 * P) * B"
  proof -
    have "A * Q \<le> (2 * P) * Q" using A(1) pos by simp
    also have "\<dots> \<le> (2 * P) * B" using B(2) pos by simp
    finally show ?thesis .
  qed
  then have "A / (2 * B) \<le> P / Q" using pos by (simp add: field_simps)
  then have lo: "2 powi (k0 - 1) \<le> x" by (simp only: k0m xPQ)
  have il: "ilog2 x = (if 2 powi k0 \<le> x then k0 else k0 - 1)"
    by (simp add: ilog2_def pq k0_def Let_def)
  show ?thesis
  proof (cases "2 powi k0 \<le> x")
    case True
    then show ?thesis using up il by simp
  next
    case False
    then have "x < 2 powi k0" by simp
    then show ?thesis using False lo il by simp
  qed
qed

lemma powi2_less_cancel:
  assumes "(2::rat) powi m < 2 powi n"
  shows "m < n"
proof (rule ccontr)
  assume "\<not> m < n"
  then have "n \<le> m" by simp
  then have "(2::rat) powi n \<le> 2 powi m" by (rule power_int_increasing) simp
  with assms show False by simp
qed

lemma ilog2_eqI:
  assumes "2 powi k \<le> x" "x < 2 powi (k + 1)"
  shows "ilog2 x = k"
proof -
  have "(0::rat) < 2 powi k" by simp
  from this assms(1) have x: "0 < x" by (rule less_le_trans)
  from ilog2_bounds[OF x] have a: "2 powi ilog2 x \<le> x" and b: "x < 2 powi (ilog2 x + 1)" by simp_all
  from assms(1) b have "(2::rat) powi k < 2 powi (ilog2 x + 1)" by simp
  then have "k < ilog2 x + 1" by (rule powi2_less_cancel)
  moreover from a assms(2) have "(2::rat) powi ilog2 x < 2 powi (k + 1)" by simp
  then have "ilog2 x < k + 1" by (rule powi2_less_cancel)
  ultimately show ?thesis by simp
qed


lemma round64_at:
  assumes "2 powi k \<le> x" and "x < 2 powi (k + 1)"
    and "of_int (rne (x / 2 powi max (k - 52) (- 1074))) * 2 powi max (k - 52) (- 1074) = y"
  shows "round64 x = y"
proof -
  have "(0::rat) < 2 powi k" by simp
  from this assms(1) have x: "0 < x" by (rule less_le_trans)
  have "ilog2 x = k" using assms(1,2) by (rule ilog2_eqI)
  then show ?thesis using x assms(3) by (simp add: round64_def Let_def)
qed

lemma floor_rat_numeral:
  "\<lfloor>(numeral a :: rat) / numeral b\<rfloor> = numeral a div numeral b"
  using floor_divide_of_int_eq[of "numeral a" "numeral b", where ?'a = rat] by simp

lemmas float_eval = power_int_def power_divide rne_def Let_def floor_rat_numeral

text \<open>The fee tiers 0.08, 0.30 and 0.05 of the specification, and 0.29.\<close>

lemma round64_008: "round64 (8 / 100) = 5764607523034235 / 72057594037927936"
  by (rule round64_at[where k = "- 4"]) (simp_all add: float_eval)

lemma round64_008_100: "round64 (5764607523034235 / 72057594037927936 * 100) = 8"
  by (rule round64_at[where k = 3]) (simp_all add: float_eval)

lemma round64_030: "round64 (30 / 100) = 5404319552844595 / 18014398509481984"
  by (rule round64_at[where k = "- 2"]) (simp_all add: float_eval)

lemma round64_030_100: "round64 (5404319552844595 / 18014398509481984 * 100) = 30"
  by (rule round64_at[where k = 4]) (simp_all add: float_eval)

lemma round64_005: "round64 (5 / 100) = 3602879701896397 / 72057594037927936"
  by (rule round64_at[where k = "- 5"]) (simp_all add: float_eval)

lemma round64_005_100: "round64 (3602879701896397 / 72057594037927936 * 100) = 5"
  by (rule round64_at[where k = 2]) (simp_all add: float_eval)

lemma round64_029: "round64 (29 / 100) = 5224175567749775 / 18014398509481984"
  by (rule round64_at[where k = "- 2"]) (simp_all add: float_eval)

lemma round64_029_100:
  "round64 (5224175567749775 / 18014398509481984 * 100) = 8162774324609023 / 281474976710656"
  by (rule round64_at[where k = 4]) (simp_all add: float_eval)

lemma ParseFloat_008: "ParseFloat (8 / 100) = Some (5764607523034235 / 72057594037927936)"
  by (simp only: ParseFloat_def fits64_def round64_008) simp

lemma ParseFloat_030: "ParseFloat (30 / 100) = Some (5404319552844595 / 18014398509481984)"
  by (simp only: ParseFloat_def fits64_def round64_030) simp

lemma ParseFloat_005: "ParseFloat (5 / 100) = Some (3602879701896397 / 72057594037927936)"
  by (simp only: ParseFloat_def fits64_def round64_005) simp

lemma ParseFloat_029: "ParseFloat (29 / 100) = Some (5224175567749775 / 18014398509481984)"
  by (simp only: ParseFloat_def fits64_def round64_029) simp

lemma fee_to_bps_008: "fee_to_bps (5764607523034235 / 72057594037927936) = Some 8"
  by (simp only: fee_to_bps_def round64_008_100 Let_def) simp

lemma fee_to_bps_030: "fee_to_bps (5404319552844595 / 18014398509481984) = Some 30"
  by (simp only: fee_to_bps_def round64_030_100 Let_def) simp

lemma fee_to_bps_005: "fee_to_bps (3602879701896397 / 72057594037927936) = Some 5"
  by (simp only: fee_to_bps_def round64_005_100 Let_def) simp

lemma fee_to_bps_029: "fee_to_bps (5224175567749775 / 18014398509481984) = Some 28"
  by (simp only: fee_to_bps_def round64_029_100 Let_def) (simp add: floor_rat_numeral)

lemma fee_examples:
  "Option.bind (ParseFloat (8 / 100)) fee_to_bps = Some 8"
  "Option.bind (ParseFloat (30 / 100)) fee_to_bps = Some 30"
  "Option.bind (ParseFloat (5 / 100)) fee_to_bps = Some 5"
  by (simp_all only: ParseFloat_008 ParseFloat_030 ParseFloat_005 Option.bind.simps
      fee_to_bps_008 fee_to_bps_030 fee_to_bps_005)


section \<open>The fee conversion of the pool querier\<close>

text \<open>
  C4 (the conversion of a reported fee keeps every whole number of basis points): a fee
  reported as 0.29 percent is decoded to the nearest \<open>float64\<close>, its product with 100 is
  the \<open>float64\<close> just below 29, and the conversion to \<open>uint64\<close> drops the fraction:
  \<open>GetPoolByID\<close> returns a fee of 28 basis points, not 29.
\<close>

theorem fee_029_yields_28_bps:
  "GetPoolByID (Reply 200 (map_option (\<lambda>fee.
      \<lparr>ip_ID = ''1'', ip_Asset0 = ''HBD'', ip_Asset1 = ''HIVE'', ip_Reserve0 = 1000000,
       ip_Reserve1 = 500000, ip_Fee = fee, ip_TotalSupply = 1000000\<rparr>) (ParseFloat (29 / 100))))
   = Inr \<lparr>pr_ContractId = ''1'', pr_Asset0 = ''HBD'', pr_Asset1 = ''HIVE'',
          pr_Reserve0 = 1000000, pr_Reserve1 = 500000, pr_Fee = 28\<rparr>"
  by (simp add: ParseFloat_029 GetPoolByID_def to_router_pool_def fee_to_bps_029)


section \<open>Facts about the event handlers\<close>

lemma pools_add_transaction [simp]: "pools (add_transaction dm t) = pools dm"
  by (simp add: add_transaction_def Let_def)

lemma positions_add_transaction [simp]: "positions (add_transaction dm t) = positions dm"
  by (simp add: add_transaction_def Let_def)

lemma transactions_add_transaction:
  "transactions (add_transaction dm t) =
     (if length (transactions dm) \<ge> 1000 then tl (transactions dm @ [t]) else transactions dm @ [t])"
  by (simp add: add_transaction_def Let_def)

lemma transactions_updateLiquidityPosition [simp]:
  "transactions (updateLiquidityPosition dm p u a b) = transactions dm"
  by (simp add: updateLiquidityPosition_def Let_def split: prod.splits)

lemma pools_updateLiquidityPosition [simp]:
  "pools (updateLiquidityPosition dm p u a b) = pools dm"
  by (simp add: updateLiquidityPosition_def Let_def split: prod.splits)

lemma transactions_on_pool_created [simp]: "transactions (on_pool_created dm a) = transactions dm"
  by (simp add: on_pool_created_def)

lemma transactions_on_liquidity_added [simp]: "transactions (on_liquidity_added dm a) = transactions dm"
  by (simp add: on_liquidity_added_def Let_def split: option.splits)

lemma transactions_on_liquidity_removed [simp]: "transactions (on_liquidity_removed dm a) = transactions dm"
  by (simp add: on_liquidity_removed_def Let_def split: option.splits)

lemma transactions_on_swap_executed [simp]: "transactions (on_swap_executed dm a) = transactions dm"
  by (simp add: on_swap_executed_def Let_def split: option.splits)

text \<open>The handler, method by method.\<close>

lemma handle_pool_created:
  assumes "Method event = ''pool_created''"
  shows "handleDexRouterEvent dm event =
     (case unmarshal_pool_created (Args event) of
        None \<Rightarrow> (Some UnmarshalError, dm)
      | Some args \<Rightarrow>
          (None, add_transaction (on_pool_created dm args)
             ((new_txInfo event)\<lparr>tx_Type := ''pool_created'', tx_PoolID := pc_PoolID args,
                tx_Details := [(''asset0'', DString (pc_Asset0 args)),
                               (''asset1'', DString (pc_Asset1 args)),
                               (''fee'', DFloat64 (pc_Fee args))]\<rparr>)))"
  by (simp add: handleDexRouterEvent_def Let_def assms)

lemma handle_liquidity_added:
  assumes "Method event = ''liquidity_added''"
  shows "handleDexRouterEvent dm event =
     (case unmarshal_liquidity_added (Args event) of
        None \<Rightarrow> (Some UnmarshalError, dm)
      | Some args \<Rightarrow>
          (None, add_transaction (on_liquidity_added dm args)
             ((new_txInfo event)\<lparr>tx_Type := ''deposit'', tx_PoolID := la_PoolID args,
                tx_User := la_User args,
                tx_Details := [(''amount0'', DUint64 (la_Amount0 args)),
                               (''amount1'', DUint64 (la_Amount1 args)),
                               (''lp_tokens'', DUint64 (la_LPTokens args))]\<rparr>)))"
  by (simp add: handleDexRouterEvent_def Let_def assms)

lemma handle_liquidity_removed:
  assumes "Method event = ''liquidity_removed''"
  shows "handleDexRouterEvent dm event =
     (case unmarshal_liquidity_removed (Args event) of
        None \<Rightarrow> (Some UnmarshalError, dm)
      | Some args \<Rightarrow>
          (None, add_transaction (on_liquidity_removed dm args)
             ((new_txInfo event)\<lparr>tx_Type := ''withdrawal'', tx_PoolID := lr_PoolID args,
                tx_User := lr_User args,
                tx_Details := [(''amount0'', DUint64 (lr_Amount0 args)),
                               (''amount1'', DUint64 (lr_Amount1 args)),
                               (''lp_tokens'', DUint64 (lr_LPTokens args))]\<rparr>)))"
  by (simp add: handleDexRouterEvent_def Let_def assms)

lemma handle_swap_executed:
  assumes "Method event = ''swap_executed''"
  shows "handleDexRouterEvent dm event =
     (case unmarshal_swap_executed (Args event) of
        None \<Rightarrow> (Some UnmarshalError, dm)
      | Some args \<Rightarrow>
          (None, add_transaction (on_swap_executed dm args)
             ((new_txInfo event)\<lparr>tx_Type := ''swap'', tx_PoolID := sw_PoolID args,
                tx_User := sw_User args,
                tx_Details := [(''amount0'', DInt64 (sw_Amount0 args)),
                               (''amount1'', DInt64 (sw_Amount1 args)),
                               (''amount_in'', DUint64 (sw_AmountIn args)),
                               (''amount_out'', DUint64 (sw_AmountOut args)),
                               (''asset_in'', DString (sw_AssetIn args)),
                               (''asset_out'', DString (sw_AssetOut args))]\<rparr>)))"
  by (simp add: handleDexRouterEvent_def Let_def assms)

lemma handle_other_method:
  assumes "Method event \<noteq> ''pool_created''" and "Method event \<noteq> ''liquidity_added''"
    and "Method event \<noteq> ''liquidity_removed''" and "Method event \<noteq> ''swap_executed''"
  shows "handleDexRouterEvent dm event = (None, add_transaction dm (new_txInfo event))"
  by (simp add: handleDexRouterEvent_def Let_def assms)


lemma method_cases [case_names created added removed swap other]:
  obtains "Method event = ''pool_created''"
  | "Method event = ''liquidity_added''"
  | "Method event = ''liquidity_removed''"
  | "Method event = ''swap_executed''"
  | "Method event \<noteq> ''pool_created''" "Method event \<noteq> ''liquidity_added''"
    "Method event \<noteq> ''liquidity_removed''" "Method event \<noteq> ''swap_executed''"
  by blast

text \<open>An error is returned exactly for a malformed payload of a DEX router event.\<close>

lemma handle_error_iff:
  "fst (handleDexRouterEvent dm event) \<noteq> None \<longleftrightarrow> malformed event"
proof (cases event rule: method_cases)
  case created
  then show ?thesis by (simp add: handle_pool_created malformed_def split: option.splits)
next
  case added
  then show ?thesis by (simp add: handle_liquidity_added malformed_def split: option.splits)
next
  case removed
  then show ?thesis by (simp add: handle_liquidity_removed malformed_def split: option.splits)
next
  case swap
  then show ?thesis by (simp add: handle_swap_executed malformed_def split: option.splits)
next
  case other
  then show ?thesis by (simp add: handle_other_method malformed_def)
qed

lemma handle_malformed:
  assumes "malformed event"
  shows "handleDexRouterEvent dm event = (Some UnmarshalError, dm)"
proof (cases event rule: method_cases)
  case created
  then show ?thesis using assms by (simp add: handle_pool_created malformed_def)
next
  case added
  then show ?thesis using assms by (simp add: handle_liquidity_added malformed_def)
next
  case removed
  then show ?thesis using assms by (simp add: handle_liquidity_removed malformed_def)
next
  case swap
  then show ?thesis using assms by (simp add: handle_swap_executed malformed_def)
next
  case other
  then show ?thesis using assms by (simp add: malformed_def)
qed

lemma HandleEvent_error_iff:
  "fst (HandleEvent dm event) \<noteq> None \<longleftrightarrow> Contract event = ''dex-router'' \<and> malformed event"
  using handle_error_iff[of dm event] by (simp add: HandleEvent_def)

lemma HandleEvent_error_state:
  assumes "fst (HandleEvent dm event) \<noteq> None"
  shows "snd (HandleEvent dm event) = dm"
proof -
  from assms[unfolded HandleEvent_error_iff]
  have "Contract event = ''dex-router''" and "malformed event" by simp_all
  then show ?thesis by (simp add: HandleEvent_def handle_malformed)
qed

lemma HandleEvent_other_contract:
  "Contract event \<noteq> ''dex-router'' \<Longrightarrow> HandleEvent dm event = (None, dm)"
  by (simp add: HandleEvent_def)

lemma transactions_NewDexReadModel [simp]: "transactions NewDexReadModel = []"
  by (simp add: NewDexReadModel_def)

lemma handle_transactions:
  assumes "\<not> malformed event"
  shows "transactions (snd (handleDexRouterEvent dm event)) =
     (if length (transactions dm) \<ge> 1000 then tl (transactions dm @ [recorded event])
      else transactions dm @ [recorded event])"
proof (cases event rule: method_cases)
  case created
  then show ?thesis using assms
    by (auto simp add: handle_pool_created malformed_def recorded_def transactions_add_transaction)
next
  case added
  then show ?thesis using assms
    by (auto simp add: handle_liquidity_added malformed_def recorded_def transactions_add_transaction)
next
  case removed
  then show ?thesis using assms
    by (auto simp add: handle_liquidity_removed malformed_def recorded_def transactions_add_transaction)
next
  case swap
  then show ?thesis using assms
    by (auto simp add: handle_swap_executed malformed_def recorded_def transactions_add_transaction)
next
  case other
  then show ?thesis
    by (simp add: handle_other_method recorded_def transactions_add_transaction)
qed


section \<open>Facts about 64-bit words\<close>

lemma uint_add_sint:
  "uint (a + b :: 64 word) = (uint a + sint b) mod 2 ^ 64"
proof -
  have "a + b = word_of_int (uint a + sint b)" by simp
  then have "uint (a + b) = uint (word_of_int (uint a + sint b) :: 64 word)" by simp
  also have "\<dots> = (uint a + sint b) mod 2 ^ 64" by (simp only: uint_word_of_int) simp
  finally show ?thesis .
qed

lemma uint_add_uint:
  "uint (a + b :: 64 word) = (uint a + uint b) mod 2 ^ 64"
  by (simp add: uint_word_ariths)

lemma uint_sub_uint:
  "uint (a - b :: 64 word) = (uint a - uint b) mod 2 ^ 64"
  by (simp add: uint_word_ariths)

lemma unat_max64: "unat (- 1 :: 64 word) = 18446744073709551615"
proof -
  have "(- 1 :: 64 word) = 18446744073709551615" by simp
  moreover have "unat (18446744073709551615 :: 64 word) = 18446744073709551615" by simp
  ultimately show ?thesis by (simp only:)
qed

lemma sint_mod_uint: "sint (b :: 64 word) mod 2 ^ 64 = uint b"
  using uint_add_sint[of 0 b] by simp

lemma add_sint_mod: "(x + sint (b :: 64 word)) mod 2 ^ 64 = (x + uint b) mod 2 ^ 64"
proof -
  have "(x + sint b) mod 2 ^ 64 = (x + sint b mod 2 ^ 64) mod 2 ^ 64"
    by (simp only: mod_add_right_eq)
  also have "\<dots> = (x + uint b) mod 2 ^ 64"
    by (simp only: sint_mod_uint)
  finally show ?thesis .
qed

lemma add_sint_mod_num:
  "(x + sint (b :: 64 word)) mod 18446744073709551616 = (x + uint b) mod 18446744073709551616"
  using add_sint_mod[of x b] by simp


section \<open>The read model after a creation and a deposit\<close>

lemma HandleEvents_Nil [simp]: "HandleEvents dm [] = dm"
  by (simp add: HandleEvents_def)

lemma HandleEvents_Cons:
  "HandleEvents dm (event # events) = HandleEvents (snd (HandleEvent dm event)) events"
  by (simp add: HandleEvents_def)

lemma HandleEvents_snoc:
  "HandleEvents dm (events @ [event]) = snd (HandleEvent (HandleEvents dm events) event)"
  by (simp add: HandleEvents_def)

text \<open>The definitions that a run of the example events unfolds.\<close>

lemmas run_events = HandleEvents_def HandleEvent_def handle_pool_created handle_liquidity_added
  handle_liquidity_removed handle_swap_executed
  create_p1_def deposit_p1_def withdraw_p1_def recreate_p1_def
  pool_created_event_def liquidity_added_event_def liquidity_removed_event_def
  swap_executed_event_def on_pool_created_def on_liquidity_added_def on_liquidity_removed_def
  on_swap_executed_def updateLiquidityPosition_def QueryLiquidityPositions_def
  NewDexReadModel_def Let_def

lemma after_deposit_alice:
  "pools (HandleEvents NewDexReadModel [create_p1, deposit_p1 ''tx2'' ''alice'' 500]) ''p1''
     = Some \<lparr>ID = ''p1'', Asset0 = ''HBD'', Asset1 = ''HIVE'', Reserve0 = 500, Reserve1 = 500,
         Fee = 8, TotalSupply = 500\<rparr>"
  "map (\<lambda>pos. (User pos, Amount pos))
     (QueryLiquidityPositions
        (HandleEvents NewDexReadModel [create_p1, deposit_p1 ''tx2'' ''alice'' 500]) ''p1'')
     = [(''alice'', 500)]"
  by (simp_all add: run_events)


section \<open>Reserves under withdrawals\<close>

text \<open>
  C1 (no withdrawal or swap drives a reserve below zero: the update is rejected or clamped
  to zero, it does not wrap around): on the pool \<open>p1\<close> just created, with reserves 0, a
  \<open>liquidity_removed\<close> event with \<open>amount0 = 1\<close> is accepted and leaves
  \<open>reserve0 = 2 ^ 64 - 1\<close>: the subtraction wraps around, where the position of a user
  is floored at zero by \<open>updateLiquidityPosition\<close>.
\<close>

theorem withdrawal_wraps_reserve:
  "map_option (\<lambda>pool. (unat (Reserve0 pool), unat (Reserve1 pool), unat (TotalSupply pool)))
     (pools (HandleEvents NewDexReadModel
        [create_p1,
         liquidity_removed_event ''tx2'' 2
           \<lparr>lr_PoolID = ''p1'', lr_User = ''alice'', lr_Amount0 = 1, lr_Amount1 = 0,
            lr_LPTokens = 0\<rparr>]) ''p1'')
   = Some (18446744073709551615, 0, 0)"
  by (simp add: HandleEvents_def HandleEvent_def handle_pool_created handle_liquidity_removed
      create_p1_def pool_created_event_def liquidity_removed_event_def on_pool_created_def
      on_liquidity_removed_def NewDexReadModel_def unat_max64)


section \<open>Total supply and positions\<close>

lemma unat_sum_list_Amount:
  "unat (sum_list (map Amount ps)) = sum_amounts ps mod 2 ^ 64"
proof (induction ps)
  case Nil
  then show ?case by (simp add: sum_amounts_def)
next
  case (Cons p ps)
  have "unat (Amount p + sum_list (map Amount ps))
      = (unat (Amount p) + unat (sum_list (map Amount ps))) mod 2 ^ 64"
    by (simp add: unat_word_ariths)
  also have "\<dots> = (unat (Amount p) + sum_amounts ps mod 2 ^ 64) mod 2 ^ 64"
    by (simp only: Cons.IH)
  also have "\<dots> = (unat (Amount p) + sum_amounts ps) mod 2 ^ 64"
    by (simp only: mod_add_right_eq)
  finally show ?case by (simp add: sum_amounts_def)
qed

lemma supply_matches_word:
  "supply_matches dm poolID =
     (case pools dm poolID of
        None \<Rightarrow> True
      | Some pool \<Rightarrow> sum_list (map Amount (QueryLiquidityPositions dm poolID)) = TotalSupply pool)"
proof (cases "pools dm poolID")
  case None
  then show ?thesis by (simp add: supply_matches_def)
next
  case (Some pool)
  have "(sum_amounts (QueryLiquidityPositions dm poolID) mod 2 ^ 64 = unat (TotalSupply pool))
      = (sum_list (map Amount (QueryLiquidityPositions dm poolID)) = TotalSupply pool)"
    by (simp only: unat_sum_list_Amount[symmetric] unat_eq_nat_uint word_unat_eq_iff)
  then show ?thesis using Some by (simp add: supply_matches_def)
qed

lemma update_first_add:
  "sum_list (map Amount (fst (update_first user amount True ps)))
     = sum_list (map Amount ps) + (if snd (update_first user amount True ps) then amount else 0)"
  by (induction ps) (auto split: prod.splits)

lemma update_first_remove:
  assumes "amount \<le> first_amount user ps"
  shows "sum_list (map Amount (fst (update_first user amount False ps)))
     = sum_list (map Amount ps) - amount"
  using assms
proof (induction ps)
  case Nil
  then show ?case by simp
next
  case (Cons pos rest)
  show ?case
  proof (cases "User pos = user")
    case True
    with Cons.prems have le: "amount \<le> Amount pos" by simp
    show ?thesis
    proof (cases "Amount pos > amount")
      case True
      then show ?thesis using \<open>User pos = user\<close> by simp
    next
      case False
      with le have "Amount pos = amount" by simp
      then show ?thesis using \<open>User pos = user\<close> by simp
    qed
  next
    case False
    with Cons.prems have "amount \<le> first_amount user rest" by simp
    then have "sum_list (map Amount (fst (update_first user amount False rest)))
        = sum_list (map Amount rest) - amount" by (rule Cons.IH)
    then show ?thesis using False by (auto split: prod.splits)
  qed
qed

lemma Amount_share_map:
  "map Amount (map (\<lambda>pos. pos\<lparr>Share := f pos\<rparr>) ps) = map Amount ps"
  by (induction ps) simp_all

lemma positions_updateLiquidityPosition_other:
  "q \<noteq> p \<Longrightarrow> positions (updateLiquidityPosition dm p u a b) q = positions dm q"
  by (simp add: updateLiquidityPosition_def Let_def split: prod.splits)

lemma Amounts_after_add:
  "sum_list (map Amount (QueryLiquidityPositions (updateLiquidityPosition dm p u a True) p))
     = sum_list (map Amount (QueryLiquidityPositions dm p)) + a"
proof -
  let ?ps = "QueryLiquidityPositions dm p"
  obtain ps1 found where uf: "update_first u a True ?ps = (ps1, found)"
    by (cases "update_first u a True ?ps")
  have s: "sum_list (map Amount ps1) = sum_list (map Amount ?ps) + (if found then a else 0)"
    using update_first_add[of u a ?ps] by (simp add: uf)
  have "sum_list (map Amount (QueryLiquidityPositions (updateLiquidityPosition dm p u a True) p))
      = sum_list (map Amount (if \<not> found \<and> a > 0
            then ps1 @ [\<lparr>User = u, PoolID = p, Amount = a, Share = 0\<rparr>] else ps1))"
    using uf
    by (simp add: updateLiquidityPosition_def QueryLiquidityPositions_def Let_def
        Amount_share_map del: map_map)
  also have "\<dots> = sum_list (map Amount ?ps) + a"
    using s by (cases found; cases "a = 0") (simp_all add: word_greater_zero_iff)
  finally show ?thesis .
qed

lemma Amounts_after_remove:
  assumes "a \<le> first_amount u (QueryLiquidityPositions dm p)"
  shows "sum_list (map Amount (QueryLiquidityPositions (updateLiquidityPosition dm p u a False) p))
     = sum_list (map Amount (QueryLiquidityPositions dm p)) - a"
proof -
  let ?ps = "QueryLiquidityPositions dm p"
  obtain ps1 found where uf: "update_first u a False ?ps = (ps1, found)"
    by (cases "update_first u a False ?ps")
  have s: "sum_list (map Amount ps1) = sum_list (map Amount ?ps) - a"
    using update_first_remove[OF assms] by (simp add: uf)
  have "sum_list (map Amount (QueryLiquidityPositions (updateLiquidityPosition dm p u a False) p))
      = sum_list (map Amount ps1)"
    using uf
    by (simp add: updateLiquidityPosition_def QueryLiquidityPositions_def Let_def
        Amount_share_map del: map_map)
  then show ?thesis using s by simp
qed


lemma QueryLiquidityPositions_pools_update [simp]:
  "QueryLiquidityPositions (dm\<lparr>pools := x\<rparr>) q = QueryLiquidityPositions dm q"
  by (simp add: QueryLiquidityPositions_def)

lemma QueryLiquidityPositions_other:
  "q \<noteq> p \<Longrightarrow> QueryLiquidityPositions (updateLiquidityPosition dm p u a b) q
     = QueryLiquidityPositions dm q"
  by (simp add: QueryLiquidityPositions_def positions_updateLiquidityPosition_other)

lemma supply_after_deposit:
  assumes "la_User args \<noteq> []" and "supply_matches dm pid"
  shows "supply_matches (on_liquidity_added dm args) pid"
proof (cases "pools dm (la_PoolID args)")
  case None
  then show ?thesis using assms(2) by (simp add: on_liquidity_added_def)
next
  case (Some pool)
  show ?thesis
  proof (cases "pid = la_PoolID args")
    case True
    from assms(2) Some True
    have "sum_list (map Amount (QueryLiquidityPositions dm (la_PoolID args))) = TotalSupply pool"
      by (simp add: supply_matches_word)
    then show ?thesis using Some True assms(1)
      by (simp add: on_liquidity_added_def Let_def supply_matches_word Amounts_after_add)
  next
    case False
    have "pools (on_liquidity_added dm args) pid = pools dm pid"
      using False Some by (simp add: on_liquidity_added_def Let_def)
    moreover have "QueryLiquidityPositions (on_liquidity_added dm args) pid
        = QueryLiquidityPositions dm pid"
      using False Some by (simp add: on_liquidity_added_def Let_def QueryLiquidityPositions_other)
    ultimately show ?thesis using assms(2) by (simp add: supply_matches_def split: option.splits)
  qed
qed

lemma supply_after_withdrawal:
  assumes "lr_LPTokens args
      \<le> first_amount (lr_User args) (QueryLiquidityPositions dm (lr_PoolID args))"
    and "supply_matches dm pid"
  shows "supply_matches (on_liquidity_removed dm args) pid"
proof (cases "pools dm (lr_PoolID args)")
  case None
  then show ?thesis using assms(2) by (simp add: on_liquidity_removed_def)
next
  case (Some pool)
  let ?dm' = "dm\<lparr>pools := (pools dm)(lr_PoolID args \<mapsto>
      pool\<lparr>Reserve0 := Reserve0 pool - lr_Amount0 args,
           Reserve1 := Reserve1 pool - lr_Amount1 args,
           TotalSupply := TotalSupply pool - lr_LPTokens args\<rparr>)\<rparr>"
  have cov: "lr_LPTokens args
      \<le> first_amount (lr_User args) (QueryLiquidityPositions ?dm' (lr_PoolID args))"
    using assms(1) by simp
  show ?thesis
  proof (cases "pid = lr_PoolID args")
    case True
    from assms(2) Some True
    have "sum_list (map Amount (QueryLiquidityPositions dm (lr_PoolID args))) = TotalSupply pool"
      by (simp add: supply_matches_word)
    then show ?thesis using Some True
      by (simp add: on_liquidity_removed_def Let_def supply_matches_word
          Amounts_after_remove[OF cov])
  next
    case False
    have "pools (on_liquidity_removed dm args) pid = pools dm pid"
      using False Some by (simp add: on_liquidity_removed_def Let_def)
    moreover have "QueryLiquidityPositions (on_liquidity_removed dm args) pid
        = QueryLiquidityPositions dm pid"
      using False Some by (simp add: on_liquidity_removed_def Let_def QueryLiquidityPositions_other)
    ultimately show ?thesis using assms(2) by (simp add: supply_matches_def split: option.splits)
  qed
qed

lemma QueryLiquidityPositions_add_transaction [simp]:
  "QueryLiquidityPositions (add_transaction dm t) q = QueryLiquidityPositions dm q"
  by (simp add: QueryLiquidityPositions_def)

lemma supply_matches_add_transaction [simp]:
  "supply_matches (add_transaction dm t) pid = supply_matches dm pid"
  by (simp add: supply_matches_def split: option.splits)

lemma supply_step:
  assumes "deposit_with_user event \<or> covered_withdrawal dm event"
    and "supply_matches dm pid"
  shows "supply_matches (snd (HandleEvent dm event)) pid"
  using assms(1)
proof
  assume "deposit_with_user event"
  then obtain args where "Contract event = ''dex-router''" "Method event = ''liquidity_added''"
    "unmarshal_liquidity_added (Args event) = Some args" "la_User args \<noteq> []"
    by (auto simp add: deposit_with_user_def split: option.splits)
  then show ?thesis using assms(2)
    by (simp add: HandleEvent_def handle_liquidity_added supply_after_deposit)
next
  assume "covered_withdrawal dm event"
  then obtain args where "Contract event = ''dex-router''" "Method event = ''liquidity_removed''"
    "unmarshal_liquidity_removed (Args event) = Some args"
    "lr_LPTokens args \<le> first_amount (lr_User args) (QueryLiquidityPositions dm (lr_PoolID args))"
    by (auto simp add: covered_withdrawal_def split: option.splits)
  then show ?thesis using assms(2)
    by (simp add: HandleEvent_def handle_liquidity_removed supply_after_withdrawal)
qed

text \<open>
  C2 (after any run of deposits and withdrawals the sum of the amounts of a pool's
  positions is its total supply) fails: a deposit without a user raises the total supply
  of \<open>p1\<close> to 100 and records no position; and a withdrawal of 600 LP tokens by a user
  who holds 500 floors the position at 0 while the total supply wraps around to
  \<open>2 ^ 64 - 100\<close>.
\<close>

theorem deposit_without_user_breaks_sum:
  "map_option TotalSupply
     (pools (HandleEvents NewDexReadModel [create_p1, deposit_p1 ''tx2'' [] 100]) ''p1'') = Some 100
   \<and> sum_amounts (QueryLiquidityPositions
       (HandleEvents NewDexReadModel [create_p1, deposit_p1 ''tx2'' [] 100]) ''p1'') = 0
   \<and> map_option (\<lambda>pool. unat (TotalSupply pool))
     (pools (HandleEvents NewDexReadModel
        [create_p1, deposit_p1 ''tx2'' ''alice'' 500, withdraw_p1 ''tx3'' ''alice'' 600]) ''p1'')
     = Some 18446744073709551516
   \<and> map (\<lambda>pos. (User pos, Amount pos)) (QueryLiquidityPositions
       (HandleEvents NewDexReadModel
          [create_p1, deposit_p1 ''tx2'' ''alice'' 500, withdraw_p1 ''tx3'' ''alice'' 600]) ''p1'')
     = [(''alice'', 0)]"
  by (simp add: run_events sum_amounts_def)

text \<open>
  C2, as amended: in a read model where the total supply of a pool is the sum of the
  amounts of its positions modulo \<open>2 ^ 64\<close> (a pool just created, for one), it still is
  after any run of deposits that name their user and of withdrawals that take no more LP
  tokens than the position of their user holds when they are applied.
\<close>

theorem supply_matches_positions:
  assumes "supply_matches dm poolID" and "balanced dm events"
  shows "supply_matches (HandleEvents dm events) poolID"
  using assms
proof (induction events arbitrary: dm)
  case Nil
  then show ?case by simp
next
  case (Cons event events)
  from Cons.prems(2) have step: "deposit_with_user event \<or> covered_withdrawal dm event"
    and rest: "balanced (snd (HandleEvent dm event)) events" by simp_all
  from step Cons.prems(1) have "supply_matches (snd (HandleEvent dm event)) poolID"
    by (rule supply_step)
  from this rest have "supply_matches (HandleEvents (snd (HandleEvent dm event)) events) poolID"
    by (rule Cons.IH)
  then show ?case by (simp only: HandleEvents_Cons)
qed

theorem supply_matches_positions_witness:
  "supply_matches (HandleEvents NewDexReadModel
       [create_p1, deposit_p1 ''tx2'' ''alice'' 500, deposit_p1 ''tx3'' ''bob'' 300,
        withdraw_p1 ''tx4'' ''alice'' 200]) ''p1''
   \<and> map_option TotalSupply (pools (HandleEvents NewDexReadModel
       [create_p1, deposit_p1 ''tx2'' ''alice'' 500, deposit_p1 ''tx3'' ''bob'' 300,
        withdraw_p1 ''tx4'' ''alice'' 200]) ''p1'') = Some 600
   \<and> map (\<lambda>pos. (User pos, Amount pos)) (QueryLiquidityPositions (HandleEvents NewDexReadModel
       [create_p1, deposit_p1 ''tx2'' ''alice'' 500, deposit_p1 ''tx3'' ''bob'' 300,
        withdraw_p1 ''tx4'' ''alice'' 200]) ''p1'') = [(''alice'', 300), (''bob'', 300)]"
proof -
  let ?dm = "HandleEvents NewDexReadModel [create_p1]"
  let ?events = "[deposit_p1 ''tx2'' ''alice'' 500, deposit_p1 ''tx3'' ''bob'' 300,
        withdraw_p1 ''tx4'' ''alice'' 200]"
  have start: "supply_matches ?dm ''p1''"
    by (simp add: supply_matches_def sum_amounts_def run_events)
  have run: "balanced ?dm ?events"
    by (simp add: deposit_with_user_def covered_withdrawal_def run_events)
  have "HandleEvents NewDexReadModel (create_p1 # ?events) = HandleEvents ?dm ?events"
    by (simp add: HandleEvents_def)
  then have "supply_matches (HandleEvents NewDexReadModel (create_p1 # ?events)) ''p1''"
    using supply_matches_positions[OF start run] by simp
  moreover have "map_option TotalSupply
      (pools (HandleEvents NewDexReadModel (create_p1 # ?events)) ''p1'') = Some 600"
    by (simp add: run_events)
  moreover have "map (\<lambda>pos. (User pos, Amount pos))
      (QueryLiquidityPositions (HandleEvents NewDexReadModel (create_p1 # ?events)) ''p1'')
      = [(''alice'', 300), (''bob'', 300)]"
    by (simp add: run_events)
  ultimately show ?thesis by simp
qed


section \<open>Swaps\<close>

lemma on_swap_executed_pool:
  assumes "pools dm (sw_PoolID args) = Some pool"
  shows "pools (on_swap_executed dm args) =
     (pools dm)(sw_PoolID args \<mapsto>
        (if sw_Amount0 args \<noteq> 0 \<or> sw_Amount1 args \<noteq> 0
         then pool\<lparr>Reserve0 := Reserve0 pool + sw_Amount0 args,
                   Reserve1 := Reserve1 pool + sw_Amount1 args\<rparr>
         else if sw_AssetIn args = Asset0 pool
         then pool\<lparr>Reserve0 := Reserve0 pool + sw_AmountIn args,
                   Reserve1 := Reserve1 pool - sw_AmountOut args\<rparr>
         else pool\<lparr>Reserve1 := Reserve1 pool + sw_AmountIn args,
                   Reserve0 := Reserve0 pool - sw_AmountOut args\<rparr>))"
  using assms by (simp add: on_swap_executed_def Let_def)

lemma positions_on_swap_executed [simp]: "positions (on_swap_executed dm args) = positions dm"
  by (simp add: on_swap_executed_def Let_def split: option.splits)

text \<open>
  C3 (a \<open>swap_executed\<close> event on an existing pool): the legacy encoding is used exactly
  when \<open>amount0\<close> or \<open>amount1\<close> is not zero, and then the signed deltas are added to
  the reserves; otherwise \<open>amountIn\<close> is added to the reserve of \<open>asset0\<close> and
  \<open>amountOut\<close> subtracted from the one of \<open>asset1\<close> when \<open>assetIn\<close> is \<open>asset0\<close>, and
  the other way round when it is not (so when it is \<open>asset1\<close>). The arithmetic is the one
  of \<open>uint64\<close>, modulo \<open>2 ^ 64\<close>. Nothing else of the pool changes, no position changes, no
  error is returned.
\<close>

theorem swap_executed_reserves:
  assumes "Contract event = ''dex-router''" and "Method event = ''swap_executed''"
    and "unmarshal_swap_executed (Args event) = Some args"
    and "pools dm (sw_PoolID args) = Some pool"
  shows "\<exists>pool'. pools (snd (HandleEvent dm event)) (sw_PoolID args) = Some pool'
    \<and> (if sw_Amount0 args \<noteq> 0 \<or> sw_Amount1 args \<noteq> 0
       then uint (Reserve0 pool') = (uint (Reserve0 pool) + sint (sw_Amount0 args)) mod 2 ^ 64
          \<and> uint (Reserve1 pool') = (uint (Reserve1 pool) + sint (sw_Amount1 args)) mod 2 ^ 64
       else if sw_AssetIn args = Asset0 pool
       then uint (Reserve0 pool') = (uint (Reserve0 pool) + uint (sw_AmountIn args)) mod 2 ^ 64
          \<and> uint (Reserve1 pool') = (uint (Reserve1 pool) - uint (sw_AmountOut args)) mod 2 ^ 64
       else uint (Reserve1 pool') = (uint (Reserve1 pool) + uint (sw_AmountIn args)) mod 2 ^ 64
          \<and> uint (Reserve0 pool') = (uint (Reserve0 pool) - uint (sw_AmountOut args)) mod 2 ^ 64)
    \<and> ID pool' = ID pool \<and> Asset0 pool' = Asset0 pool \<and> Asset1 pool' = Asset1 pool
    \<and> Fee pool' = Fee pool \<and> TotalSupply pool' = TotalSupply pool
    \<and> positions (snd (HandleEvent dm event)) = positions dm
    \<and> fst (HandleEvent dm event) = None"
proof -
  have h: "HandleEvent dm event =
      (None, add_transaction (on_swap_executed dm args)
         ((new_txInfo event)\<lparr>tx_Type := ''swap'', tx_PoolID := sw_PoolID args,
            tx_User := sw_User args,
            tx_Details := [(''amount0'', DInt64 (sw_Amount0 args)),
                           (''amount1'', DInt64 (sw_Amount1 args)),
                           (''amount_in'', DUint64 (sw_AmountIn args)),
                           (''amount_out'', DUint64 (sw_AmountOut args)),
                           (''asset_in'', DString (sw_AssetIn args)),
                           (''asset_out'', DString (sw_AssetOut args))]\<rparr>))"
    using assms(1,2,3) by (simp add: HandleEvent_def handle_swap_executed)
  show ?thesis
    unfolding h
    by (simp add: on_swap_executed_pool[OF assms(4)] add_sint_mod_num uint_add_uint uint_sub_uint)
qed

theorem swap_executed_reserves_witness:
  "(\<exists>pool'. pools (snd (HandleEvent
        (HandleEvents NewDexReadModel [create_p1, deposit_p1 ''tx2'' ''alice'' 500])
        (swap_executed_event ''tx3'' 3
           \<lparr>sw_PoolID = ''p1'', sw_User = ''bob'', sw_Amount0 = 0, sw_Amount1 = 0,
            sw_AmountIn = 100, sw_AmountOut = 40, sw_AssetIn = ''HIVE'',
            sw_AssetOut = ''HBD''\<rparr>))) ''p1'' = Some pool'
      \<and> uint (Reserve0 pool') = 460 \<and> uint (Reserve1 pool') = 600)
   \<and> (\<exists>pool'. pools (snd (HandleEvent
        (HandleEvents NewDexReadModel [create_p1, deposit_p1 ''tx2'' ''alice'' 500])
        (swap_executed_event ''tx4'' 4
           \<lparr>sw_PoolID = ''p1'', sw_User = ''bob'', sw_Amount0 = - 50, sw_Amount1 = 20,
            sw_AmountIn = 0, sw_AmountOut = 0, sw_AssetIn = [],
            sw_AssetOut = []\<rparr>))) ''p1'' = Some pool'
      \<and> uint (Reserve0 pool') = 450 \<and> uint (Reserve1 pool') = 520)"
proof -
  let ?dm = "HandleEvents NewDexReadModel [create_p1, deposit_p1 ''tx2'' ''alice'' 500]"
  let ?pool = "\<lparr>ID = ''p1'', Asset0 = ''HBD'', Asset1 = ''HIVE'', Reserve0 = 500,
      Reserve1 = 500, Fee = 8, TotalSupply = 500\<rparr>"
  let ?a = "\<lparr>sw_PoolID = ''p1'', sw_User = ''bob'', sw_Amount0 = 0, sw_Amount1 = 0,
      sw_AmountIn = 100, sw_AmountOut = 40, sw_AssetIn = ''HIVE'', sw_AssetOut = ''HBD''\<rparr>"
  let ?b = "\<lparr>sw_PoolID = ''p1'', sw_User = ''bob'', sw_Amount0 = - 50, sw_Amount1 = 20,
      sw_AmountIn = 0, sw_AmountOut = 0, sw_AssetIn = [], sw_AssetOut = []\<rparr>"
  have pool: "pools ?dm (sw_PoolID ?a) = Some ?pool" "pools ?dm (sw_PoolID ?b) = Some ?pool"
    using after_deposit_alice(1) by simp_all
  have a: "Contract (swap_executed_event ''tx3'' 3 ?a) = ''dex-router''"
    "Method (swap_executed_event ''tx3'' 3 ?a) = ''swap_executed''"
    "unmarshal_swap_executed (Args (swap_executed_event ''tx3'' 3 ?a)) = Some ?a"
    by (simp_all add: swap_executed_event_def)
  have b: "Contract (swap_executed_event ''tx4'' 4 ?b) = ''dex-router''"
    "Method (swap_executed_event ''tx4'' 4 ?b) = ''swap_executed''"
    "unmarshal_swap_executed (Args (swap_executed_event ''tx4'' 4 ?b)) = Some ?b"
    by (simp_all add: swap_executed_event_def)
  have m: "(- 50 :: 64 word) \<noteq> 0" by simp
  have s: "sint (- 50 :: 64 word) = - 50" "sint (20 :: 64 word) = 20" by simp_all
  have first: "\<exists>pool'. pools (snd (HandleEvent ?dm (swap_executed_event ''tx3'' 3 ?a))) ''p1''
        = Some pool' \<and> uint (Reserve0 pool') = 460 \<and> uint (Reserve1 pool') = 600"
    using swap_executed_reserves[OF a pool(1)] by auto
  have second: "\<exists>pool'. pools (snd (HandleEvent ?dm (swap_executed_event ''tx4'' 4 ?b))) ''p1''
        = Some pool' \<and> uint (Reserve0 pool') = 450 \<and> uint (Reserve1 pool') = 520"
    using swap_executed_reserves[OF b pool(2)] by (auto simp add: m s)
  from first second show ?thesis by (rule conjI)
qed


section \<open>The sort of the rich list\<close>

lemma length_rich_inner [simp]: "length (rich_inner i j xs) = length xs"
  by (induction i j xs rule: rich_inner.induct) (subst rich_inner.simps, simp)

lemma length_rich_outer [simp]: "length (rich_outer i xs) = length xs"
  by (induction i xs rule: rich_outer.induct) (subst rich_outer.simps, simp)

lemma mset_rich_inner: "i < length xs \<Longrightarrow> mset (rich_inner i j xs) = mset xs"
proof (induction i j xs rule: rich_inner.induct)
  case (1 i j xs)
  show ?case
  proof (cases "j < length xs")
    case True
    let ?xs' = "if Amount (xs ! i) < Amount (xs ! j) then xs[i := xs ! j, j := xs ! i] else xs"
    have len: "i < length ?xs'" using "1.prems" by simp
    have "mset (rich_inner i j xs) = mset (rich_inner i (j + 1) ?xs')"
      using True by (subst rich_inner.simps) simp
    also have "\<dots> = mset ?xs'" using True len by (rule "1.IH")
    also have "\<dots> = mset xs" using True "1.prems" by (simp add: mset_swap)
    finally show ?thesis .
  next
    case False
    then show ?thesis by (subst rich_inner.simps) simp
  qed
qed

lemma mset_rich_outer: "mset (rich_outer i xs) = mset xs"
proof (induction i xs rule: rich_outer.induct)
  case (1 i xs)
  show ?case
  proof (cases "i + 1 < length xs")
    case True
    have "mset (rich_outer i xs) = mset (rich_outer (i + 1) (rich_inner i (i + 1) xs))"
      using True by (subst rich_outer.simps) simp
    also have "\<dots> = mset (rich_inner i (i + 1) xs)" using True by (rule "1.IH")
    also have "\<dots> = mset xs" using True by (simp add: mset_rich_inner)
    finally show ?thesis .
  next
    case False
    then show ?thesis by (subst rich_outer.simps) simp
  qed
qed

lemma rich_inner_prefix:
  "k < i \<Longrightarrow> i < j \<Longrightarrow> rich_inner i j xs ! k = xs ! k"
proof (induction i j xs rule: rich_inner.induct)
  case (1 i j xs)
  show ?case
  proof (cases "j < length xs")
    case True
    let ?xs' = "if Amount (xs ! i) < Amount (xs ! j) then xs[i := xs ! j, j := xs ! i] else xs"
    have "rich_inner i j xs ! k = rich_inner i (j + 1) ?xs' ! k"
      using True by (subst rich_inner.simps) simp
    also have "\<dots> = ?xs' ! k" using True "1.prems" by (intro "1.IH") simp_all
    also have "\<dots> = xs ! k" using "1.prems" by simp
    finally show ?thesis .
  next
    case False
    then show ?thesis by (subst rich_inner.simps) simp
  qed
qed

lemma rich_inner_max:
  assumes "i < j"
    and "\<forall>k. i < k \<and> k < j \<longrightarrow> Amount (xs ! k) \<le> Amount (xs ! i)"
  shows "\<forall>k. i < k \<and> k < length xs \<longrightarrow>
      Amount (rich_inner i j xs ! k) \<le> Amount (rich_inner i j xs ! i)"
  using assms
proof (induction i j xs rule: rich_inner.induct)
  case (1 i j xs)
  show ?case
  proof (cases "j < length xs")
    case True
    let ?xs' = "if Amount (xs ! i) < Amount (xs ! j) then xs[i := xs ! j, j := xs ! i] else xs"
    have step: "rich_inner i j xs = rich_inner i (j + 1) ?xs'"
      using True by (subst rich_inner.simps) simp
    have i: "i < length xs" using True "1.prems"(1) by simp
    have pre: "\<forall>k. i < k \<and> k < j + 1 \<longrightarrow> Amount (?xs' ! k) \<le> Amount (?xs' ! i)"
    proof (intro allI impI)
      fix k assume k: "i < k \<and> k < j + 1"
      show "Amount (?xs' ! k) \<le> Amount (?xs' ! i)"
      proof (cases "Amount (xs ! i) < Amount (xs ! j)")
        case swap: True
        show ?thesis
        proof (cases "k = j")
          case True
          then show ?thesis using swap i \<open>j < length xs\<close> "1.prems"(1) by simp
        next
          case False
          with k have "k < j" by simp
          with k "1.prems"(2) have "Amount (xs ! k) \<le> Amount (xs ! i)" by simp
          then show ?thesis using swap i \<open>j < length xs\<close> "1.prems"(1) k False by simp
        qed
      next
        case keep: False
        show ?thesis
        proof (cases "k = j")
          case True
          then show ?thesis using keep by simp
        next
          case False
          with k have "k < j" by simp
          with k "1.prems"(2) show ?thesis using keep by simp
        qed
      qed
    qed
    have "\<forall>k. i < k \<and> k < length ?xs' \<longrightarrow>
        Amount (rich_inner i (j + 1) ?xs' ! k) \<le> Amount (rich_inner i (j + 1) ?xs' ! i)"
      using True _ pre by (rule "1.IH") (use "1.prems"(1) in simp)
    then show ?thesis unfolding step by simp
  next
    case False
    have "rich_inner i j xs = xs" using False by (subst rich_inner.simps) simp
    moreover have "\<forall>k. i < k \<and> k < length xs \<longrightarrow> k < j" using False by simp
    ultimately show ?thesis using "1.prems"(2) by simp
  qed
qed

lemma take_rich_inner: "i < j \<Longrightarrow> take i (rich_inner i j xs) = take i xs"
  by (rule nth_equalityI) (simp_all add: rich_inner_prefix)

lemma mset_drop_rich_inner:
  assumes "i < j" and "i < length xs"
  shows "mset (drop i (rich_inner i j xs)) = mset (drop i xs)"
proof -
  let ?ys = "rich_inner i j xs"
  have "mset (take i ?ys) + mset (drop i ?ys) = mset ?ys"
    by (simp flip: mset_append)
  also have "\<dots> = mset xs" using assms(2) by (rule mset_rich_inner)
  also have "\<dots> = mset (take i xs) + mset (drop i xs)"
    by (simp flip: mset_append)
  finally show ?thesis using assms(1) by (simp add: take_rich_inner)
qed

lemma rich_outer_sorted:
  assumes "sorted_wrt (\<lambda>a b. Amount b \<le> Amount a) (take i xs)"
    and "\<forall>a \<in> set (take i xs). \<forall>b \<in> set (drop i xs). Amount b \<le> Amount a"
  shows "sorted_wrt (\<lambda>a b. Amount b \<le> Amount a) (rich_outer i xs)"
  using assms
proof (induction i xs rule: rich_outer.induct)
  case (1 i xs)
  show ?case
  proof (cases "i + 1 < length xs")
    case True
    let ?ys = "rich_inner i (i + 1) xs"
    have i: "i < length xs" "i < length ?ys" using True by simp_all
    have tk: "take i ?ys = take i xs" by (simp add: take_rich_inner)
    have "mset (drop i ?ys) = mset (drop i xs)" using i(1) by (simp add: mset_drop_rich_inner)
    then have dr: "set (drop i ?ys) = set (drop i xs)" by (rule mset_eq_setD)
    have split: "drop i ?ys = ?ys ! i # drop (i + 1) ?ys"
      using i(2) by (simp add: Cons_nth_drop_Suc)
    have head: "?ys ! i \<in> set (drop i xs)" using split dr by (metis list.set_intros(1))
    have tail: "set (drop (i + 1) ?ys) \<subseteq> set (drop i xs)"
      using split dr by (metis set_subset_Cons)
    have max: "\<forall>k. i < k \<and> k < length xs \<longrightarrow> Amount (?ys ! k) \<le> Amount (?ys ! i)"
      by (rule rich_inner_max) auto
    have below: "\<forall>b \<in> set (drop (i + 1) ?ys). Amount b \<le> Amount (?ys ! i)"
    proof
      fix b assume "b \<in> set (drop (i + 1) ?ys)"
      then obtain n where n: "n < length (drop (i + 1) ?ys)" "b = drop (i + 1) ?ys ! n"
        by (auto simp add: in_set_conv_nth)
      then have "b = ?ys ! (i + 1 + n)" "i + 1 + n < length xs" by simp_all
      with max show "Amount b \<le> Amount (?ys ! i)" by simp
    qed
    have tk1: "take (i + 1) ?ys = take i xs @ [?ys ! i]"
      using i(2) tk by (simp add: take_Suc_conv_app_nth)
    have s1: "sorted_wrt (\<lambda>a b. Amount b \<le> Amount a) (take (i + 1) ?ys)"
      unfolding tk1 using "1.prems" head by (simp add: sorted_wrt_append)
    have s2: "\<forall>a \<in> set (take (i + 1) ?ys). \<forall>b \<in> set (drop (i + 1) ?ys). Amount b \<le> Amount a"
      unfolding tk1 using "1.prems"(2) tail below by auto
    have "sorted_wrt (\<lambda>a b. Amount b \<le> Amount a) (rich_outer (i + 1) ?ys)"
      using True s1 s2 by (rule "1.IH")
    then show ?thesis using True by (subst rich_outer.simps) simp
  next
    case False
    have out: "rich_outer i xs = xs" using False by (subst rich_outer.simps) simp
    have "length (drop i xs) \<le> 1" using False by simp
    then have "sorted_wrt (\<lambda>a b. Amount b \<le> Amount a) (drop i xs)"
      by (cases "drop i xs") (simp_all add: length_Suc_conv)
    then have "sorted_wrt (\<lambda>a b. Amount b \<le> Amount a) (take i xs @ drop i xs)"
      using "1.prems" by (simp only: sorted_wrt_append)
    then show ?thesis by (simp add: out)
  qed
qed

lemma rich_sort_sorted: "sorted_wrt (\<lambda>a b. Amount b \<le> Amount a) (rich_outer 0 xs)"
  by (rule rich_outer_sorted) simp_all

lemma rich_inner_sorted_id:
  assumes "sorted_wrt (\<lambda>a b. Amount b \<le> Amount a) xs" and "i < j"
  shows "rich_inner i j xs = xs"
  using assms
proof (induction i j xs rule: rich_inner.induct)
  case (1 i j xs)
  show ?case
  proof (cases "j < length xs")
    case True
    from "1.prems" True have "Amount (xs ! j) \<le> Amount (xs ! i)"
      by (simp add: sorted_wrt_iff_nth_less)
    then have keep: "\<not> Amount (xs ! i) < Amount (xs ! j)" by simp
    have "rich_inner i j xs = rich_inner i (j + 1) xs"
      using True keep by (subst rich_inner.simps) simp
    also have "\<dots> = xs"
      using "1.IH"[OF True] keep "1.prems" by simp
    finally show ?thesis .
  next
    case False
    then show ?thesis by (subst rich_inner.simps) simp
  qed
qed

lemma rich_outer_sorted_id:
  assumes "sorted_wrt (\<lambda>a b. Amount b \<le> Amount a) xs"
  shows "rich_outer i xs = xs"
  using assms
proof (induction i xs rule: rich_outer.induct)
  case (1 i xs)
  show ?case
  proof (cases "i + 1 < length xs")
    case True
    have "rich_inner i (i + 1) xs = xs" using "1.prems" by (rule rich_inner_sorted_id) simp
    then show ?thesis using True "1.IH"[OF True] "1.prems" by (subst rich_outer.simps) simp
  next
    case False
    then show ?thesis by (subst rich_outer.simps) simp
  qed
qed

lemma rich_sort_idem: "rich_outer 0 (rich_outer 0 xs) = rich_outer 0 xs"
  using rich_sort_sorted by (rule rich_outer_sorted_id)


section \<open>The rich list\<close>

lemma wrap_int64_id: "0 \<le> x \<Longrightarrow> x < 2 ^ 63 \<Longrightarrow> wrap_int64 x = x"
  by (simp add: wrap_int64_def)

lemma paginate_slice:
  assumes "0 \<le> offset" and "0 \<le> limit" and "offset + limit < 2 ^ 63"
  shows "paginate ps offset limit = Inr (take (nat limit) (drop (nat offset) ps))"
proof -
  have w: "wrap_int64 (offset + limit) = offset + limit"
    using assms by (intro wrap_int64_id) simp_all
  show ?thesis
  proof (cases "offset \<ge> int (length ps)")
    case True
    then show ?thesis using assms(1) by (simp add: paginate_def Let_def)
  next
    case False
    show ?thesis
    proof (cases "offset + limit > int (length ps)")
      case True
      then have "length (drop (nat offset) ps) \<le> nat limit"
        using assms False by simp
      then have "take (nat limit) (drop (nat offset) ps) = drop (nat offset) ps"
        by (rule take_all)
      moreover have "take (nat (int (length ps) - offset)) (drop (nat offset) ps)
          = drop (nat offset) ps"
        using assms(1) False by (intro take_all) simp
      ultimately show ?thesis using True False assms(1) by (simp add: paginate_def Let_def w)
    next
      case False
      then show ?thesis using \<open>\<not> offset \<ge> int (length ps)\<close> assms
        by (simp add: paginate_def Let_def w)
    qed
  qed
qed

lemma QueryRichList_fst:
  "fst (QueryRichList dm poolID offset limit) =
     (case positions dm poolID of None \<Rightarrow> Inr []
      | Some ps \<Rightarrow> paginate (rich_outer 0 ps) offset limit)"
  by (simp add: QueryRichList_def Let_def split: option.splits)

lemma QueryRichList_positions:
  "positions (snd (QueryRichList dm poolID offset limit)) =
     (case positions dm poolID of None \<Rightarrow> positions dm
      | Some ps \<Rightarrow> (positions dm)(poolID \<mapsto> rich_outer 0 ps))"
  by (simp add: QueryRichList_def Let_def split: option.splits)

lemma QueryRichList_again:
  "fst (QueryRichList (snd (QueryRichList dm poolID offset limit)) poolID offset' limit')
     = fst (QueryRichList dm poolID offset' limit')"
  by (simp add: QueryRichList_fst QueryRichList_positions rich_sort_idem split: option.splits)

text \<open>
  C5 (ties of the rich list are broken by user identifier ascending) fails: bob and alice
  each deposit 500000 LP tokens, bob first; with \<open>offset = 0\<close> and \<open>limit = 1\<close> the rich
  list is bob's position, where the order by amount descending and user ascending puts
  alice's first.
\<close>

theorem rich_list_ties_not_by_user:
  "map_sum id (map User) (fst (QueryRichList (HandleEvents NewDexReadModel
      [create_p1, deposit_p1 ''tx2'' ''bob'' 500000, deposit_p1 ''tx3'' ''alice'' 500000])
      ''p1'' 0 1)) = Inr [''bob'']
   \<and> map User (spec_rich_list (QueryLiquidityPositions (HandleEvents NewDexReadModel
      [create_p1, deposit_p1 ''tx2'' ''bob'' 500000, deposit_p1 ''tx3'' ''alice'' 500000])
      ''p1'') 0 1) = [''alice'']"
  by (simp add: run_events QueryRichList_def paginate_def wrap_int64_def rich_outer.simps
      rich_inner.simps spec_rich_list_def richer_def)

text \<open>
  C5, as amended: for an offset and a limit that are not negative (and whose sum is an
  \<open>int\<close>), \<open>QueryRichList\<close> returns the stored positions of the pool sorted by amount
  descending (a permutation of them; positions of equal amount stand in the order the
  swaps of the sort leave them in, which is fixed by the stored order and does not look at
  the user), sliced to \<open>[offset, offset + limit)\<close>; an offset at or past the number of
  positions gives the empty list; and a second call returns what the first returned.
\<close>

theorem rich_list_sorted_slice:
  assumes "0 \<le> offset" and "0 \<le> limit" and "offset + limit < 2 ^ 63"
  shows "mset (rich_outer 0 (QueryLiquidityPositions dm poolID))
        = mset (QueryLiquidityPositions dm poolID)
    \<and> sorted_wrt (\<lambda>a b. Amount b \<le> Amount a) (rich_outer 0 (QueryLiquidityPositions dm poolID))
    \<and> fst (QueryRichList dm poolID offset limit)
        = Inr (take (nat limit) (drop (nat offset)
            (rich_outer 0 (QueryLiquidityPositions dm poolID))))
    \<and> (int (length (QueryLiquidityPositions dm poolID)) \<le> offset
        \<longrightarrow> fst (QueryRichList dm poolID offset limit) = Inr [])
    \<and> fst (QueryRichList (snd (QueryRichList dm poolID offset limit)) poolID offset limit)
        = fst (QueryRichList dm poolID offset limit)"
proof -
  let ?ps = "QueryLiquidityPositions dm poolID"
  have empty: "rich_outer 0 [] = []" by (subst rich_outer.simps) simp
  have slice: "fst (QueryRichList dm poolID offset limit)
      = Inr (take (nat limit) (drop (nat offset) (rich_outer 0 ?ps)))"
    using assms
    by (simp add: QueryRichList_fst QueryLiquidityPositions_def paginate_slice empty
        split: option.splits)
  have beyond: "int (length ?ps) \<le> offset \<longrightarrow> fst (QueryRichList dm poolID offset limit) = Inr []"
    unfolding slice using assms(1) by simp
  from mset_rich_outer rich_sort_sorted slice beyond QueryRichList_again
  show ?thesis by blast
qed

theorem rich_list_sorted_slice_witness:
  "map_sum id (map (\<lambda>pos. (User pos, Amount pos)))
     (fst (QueryRichList (HandleEvents NewDexReadModel
        [create_p1, deposit_p1 ''tx2'' ''alice'' 100, deposit_p1 ''tx3'' ''bob'' 300,
         deposit_p1 ''tx4'' ''carol'' 200]) ''p1'' 1 1))
   = Inr [(''carol'', 200)]"
proof -
  let ?dm = "HandleEvents NewDexReadModel
        [create_p1, deposit_p1 ''tx2'' ''alice'' 100, deposit_p1 ''tx3'' ''bob'' 300,
         deposit_p1 ''tx4'' ''carol'' 200]"
  have "(0::int) \<le> 1" and "(1::int) + 1 < 2 ^ 63" by simp_all
  from rich_list_sorted_slice[OF this(1) this(1) this(2), of ?dm "''p1''"]
  have "fst (QueryRichList ?dm ''p1'' 1 1)
      = Inr (take (nat 1) (drop (nat 1) (rich_outer 0 (QueryLiquidityPositions ?dm ''p1''))))"
    by blast
  then show ?thesis
    by (simp add: run_events rich_outer.simps rich_inner.simps)
qed


section \<open>The transaction history\<close>

lemma HandleEvent_transactions:
  assumes "Contract event = ''dex-router''" and "\<not> malformed event"
  shows "transactions (snd (HandleEvent dm event)) =
     (if length (transactions dm) \<ge> 1000 then tl (transactions dm @ [recorded event])
      else transactions dm @ [recorded event])"
  using assms by (simp add: HandleEvent_def handle_transactions)

text \<open>One step of the history, and a run of accepted events.\<close>

lemma history_step:
  assumes "length T \<le> 1000"
  shows "drop (length (if length T \<ge> 1000 then tl (T @ [r]) else T @ [r]) + n - 1000)
           ((if length T \<ge> 1000 then tl (T @ [r]) else T @ [r]) @ M)
       = drop (length T + Suc n - 1000) (T @ r # M)"
proof (cases "length T \<ge> 1000")
  case True
  with assms have len: "length T = 1000" by simp
  then have "T \<noteq> []" by auto
  then have "tl (T @ [r]) @ M = drop 1 (T @ r # M)" by (cases T) simp_all
  then show ?thesis using len by (simp add: drop_Suc)
next
  case False
  then show ?thesis by simp
qed

lemma history_general:
  assumes "length (transactions dm) \<le> 1000"
    and "\<forall>event \<in> set events. Contract event = ''dex-router'' \<and> \<not> malformed event"
  shows "transactions (HandleEvents dm events) =
     drop (length (transactions dm) + length events - 1000)
       (transactions dm @ map recorded events)"
  using assms
proof (induction events arbitrary: dm)
  case Nil
  then show ?case by simp
next
  case (Cons e es)
  let ?dm' = "snd (HandleEvent dm e)"
  from Cons.prems(2) have e: "Contract e = ''dex-router''" "\<not> malformed e" by simp_all
  have T': "transactions ?dm' =
      (if length (transactions dm) \<ge> 1000 then tl (transactions dm @ [recorded e])
       else transactions dm @ [recorded e])"
    using e by (rule HandleEvent_transactions)
  have len': "length (transactions ?dm') \<le> 1000"
    using Cons.prems(1) by (simp add: T')
  from Cons.prems(2) have rest: "\<forall>event \<in> set es. Contract event = ''dex-router'' \<and> \<not> malformed event"
    by simp
  have "transactions (HandleEvents dm (e # es)) = transactions (HandleEvents ?dm' es)"
    by (simp only: HandleEvents_Cons)
  also have "\<dots> = drop (length (transactions ?dm') + length es - 1000)
       (transactions ?dm' @ map recorded es)"
    using len' rest by (rule Cons.IH)
  also have "\<dots> = drop (length (transactions dm) + Suc (length es) - 1000)
       (transactions dm @ recorded e # map recorded es)"
    unfolding T' using Cons.prems(1) by (rule history_step)
  finally show ?case by simp
qed

lemma HandleEvent_history_bound:
  assumes "length (transactions dm) \<le> 1000"
  shows "length (transactions (snd (HandleEvent dm event))) \<le> 1000"
proof (cases "Contract event = ''dex-router'' \<and> \<not> malformed event")
  case True
  then show ?thesis using assms by (simp add: HandleEvent_transactions)
next
  case False
  then have "snd (HandleEvent dm event) = dm"
    by (auto simp add: HandleEvent_def handle_malformed)
  then show ?thesis using assms by simp
qed

lemma HandleEvents_history_bound:
  "length (transactions dm) \<le> 1000 \<Longrightarrow> length (transactions (HandleEvents dm events)) \<le> 1000"
  by (induction events arbitrary: dm) (simp_all add: HandleEvents_Cons HandleEvent_history_bound)

text \<open>
  C6 (after more than 1000 events of the DEX router the history holds exactly 1000 records,
  the oldest evicted first, in the order of arrival): from a read model with at most 1000
  records (the new one, and every one reached from it: \<open>HandleEvents_history_bound\<close>), a
  run of events of the DEX router that are applied, that is, none of them returns an error
  for a malformed payload, leaves the last 1000 of the old records followed by the records
  of the events in their order of arrival; with more than 1000 events that is exactly 1000
  records.
\<close>

theorem history_keeps_last_1000:
  assumes "length (transactions dm) \<le> 1000"
    and "\<forall>event \<in> set events. Contract event = ''dex-router'' \<and> \<not> malformed event"
  shows "transactions (HandleEvents dm events) =
       drop (length (transactions dm) + length events - 1000)
         (transactions dm @ map recorded events)
    \<and> (1000 < length events \<longrightarrow> length (transactions (HandleEvents dm events)) = 1000)"
proof -
  have eq: "transactions (HandleEvents dm events) =
       drop (length (transactions dm) + length events - 1000)
         (transactions dm @ map recorded events)"
    using assms by (rule history_general)
  have "1000 < length events \<longrightarrow> length (transactions (HandleEvents dm events)) = 1000"
    unfolding eq by simp
  with eq show ?thesis by simp
qed

lemma numbered_swap_accepted:
  "Contract (numbered_swap n) = ''dex-router'' \<and> \<not> malformed (numbered_swap n)"
  by (simp add: numbered_swap_def swap_executed_event_def malformed_def)

lemma recorded_numbered_swap:
  "tx_ID (recorded (numbered_swap n)) = dec_nat n"
  "tx_BlockHeight (recorded (numbered_swap n)) = of_nat n"
  by (simp_all add: recorded_def handle_swap_executed numbered_swap_def swap_executed_event_def
      add_transaction_def new_txInfo_def Let_def)

theorem history_keeps_last_1000_witness:
  "length (transactions (HandleEvents NewDexReadModel (map numbered_swap [0..<1001]))) = 1000
   \<and> map tx_BlockHeight (transactions (HandleEvents NewDexReadModel (map numbered_swap [0..<1001])))
     = map of_nat [1..<1001]"
proof -
  have "length (transactions NewDexReadModel) \<le> 1000" by simp
  moreover have "\<forall>event \<in> set (map numbered_swap [0..<1001]).
      Contract event = ''dex-router'' \<and> \<not> malformed event"
    using numbered_swap_accepted by auto
  ultimately have h: "transactions (HandleEvents NewDexReadModel (map numbered_swap [0..<1001])) =
       drop (length (transactions NewDexReadModel) + length (map numbered_swap [0..<1001]) - 1000)
         (transactions NewDexReadModel @ map recorded (map numbered_swap [0..<1001]))"
    using history_keeps_last_1000[of NewDexReadModel "map numbered_swap [0..<1001]"] by blast
  have "transactions (HandleEvents NewDexReadModel (map numbered_swap [0..<1001])) =
      map (recorded \<circ> numbered_swap) [1..<1001]"
    unfolding h by (simp add: drop_map)
  then show ?thesis by (simp add: recorded_numbered_swap)
qed


section \<open>Events of an unknown method\<close>

text \<open>
  C7 (an event of an unknown method is ignored: no error, no change of state, no
  transaction record): an event of the DEX router with the method \<open>pool_paused\<close>, applied
  to the new read model, returns no error and appends a transaction record with the empty
  type. The other parts of the claim hold: \<open>HandleEvent_error_iff\<close>,
  \<open>HandleEvent_error_state\<close> and \<open>HandleEvent_other_contract\<close>.
\<close>

theorem unknown_method_is_recorded:
  "HandleEvent NewDexReadModel
     \<lparr>Contract = ''dex-router'', Method = ''pool_paused'',
      Args = \<lparr>unmarshal_pool_created = None, unmarshal_liquidity_added = None,
              unmarshal_liquidity_removed = None, unmarshal_swap_executed = None\<rparr>,
      BlockHeight = 7, TxID = ''tx7''\<rparr>
   = (None, NewDexReadModel\<lparr>transactions :=
        [\<lparr>tx_ID = ''tx7'', tx_Type = [], tx_PoolID = [], tx_User = [], tx_BlockHeight = 7,
          tx_Timestamp = [], tx_Details = []\<rparr>]\<rparr>)"
  by (simp add: HandleEvent_def handle_other_method add_transaction_def new_txInfo_def
      NewDexReadModel_def)


section \<open>Swaps of an asset to itself\<close>

text \<open>
  C8 (a swap or route request with the same input and output asset always fails with the
  same-asset error and never gives a successful quote): whatever the executor, the amounts
  and the other parameters, \<open>ExecuteSwap\<close> and \<open>ComputeRoute\<close> return the result with
  \<open>Success = false\<close> and the message "cannot swap asset to itself"; the executor is not
  called. The failure is carried by the result, the Go error is nil.
\<close>

theorem same_asset_swap_fails:
  assumes "AssetIn params = AssetOut params"
  shows "ExecuteSwap dexExecutor params = Inr (failed ''cannot swap asset to itself'', None)
    \<and> ComputeRoute dexExecutor params = Inr (failed ''cannot swap asset to itself'', None)
    \<and> res_Success (failed ''cannot swap asset to itself'') = False"
  using assms by (simp add: ExecuteSwap_def ComputeRoute_def failed_def)

theorem same_asset_swap_fails_witness:
  "ExecuteSwap (Some (\<lambda>operation payload intents. None))
     \<lparr>Sender = ''alice'', AmountIn = 10000, AssetIn = ''HBD'', AssetOut = ''HBD'',
      MinAmountOut = 1, MaxSlippage = 50, MiddleOutRatio = 0, Beneficiary = [], RefBps = 0\<rparr>
   = Inr (\<lparr>res_Success = False, res_AmountOut = 0, res_Fee = 0, res_Route = [],
           res_ErrorMessage = ''cannot swap asset to itself''\<rparr>, None)"
  using same_asset_swap_fails[of
      "\<lparr>Sender = ''alice'', AmountIn = 10000, AssetIn = ''HBD'', AssetOut = ''HBD'',
        MinAmountOut = 1, MaxSlippage = 50, MiddleOutRatio = 0, Beneficiary = [], RefBps = 0\<rparr>"
      "Some (\<lambda>operation payload intents. None)"]
  by (simp add: failed_def)


section \<open>Queries and the stored state\<close>

text \<open>
  What \<open>QueryRichList\<close> leaves alone: the pools, the history, the positions of the other
  pools, and the positions of its pool as a multiset.
\<close>

lemma QueryRichList_frame:
  "pools (snd (QueryRichList dm poolID offset limit)) = pools dm
   \<and> transactions (snd (QueryRichList dm poolID offset limit)) = transactions dm
   \<and> (q \<noteq> poolID \<longrightarrow>
        positions (snd (QueryRichList dm poolID offset limit)) q = positions dm q)
   \<and> mset (QueryLiquidityPositions (snd (QueryRichList dm poolID offset limit)) poolID)
        = mset (QueryLiquidityPositions dm poolID)"
  by (simp add: QueryRichList_def QueryLiquidityPositions_def Let_def mset_rich_outer
      split: option.splits)

text \<open>
  C9 (no query changes the stored state, the stored order of a pool's positions
  included): alice deposits 1 LP token and bob 2, so the positions of \<open>p1\<close> are stored as alice,
  bob. After \<open>QueryRichList\<close> with \<open>offset = 0\<close> and \<open>limit = 10\<close> they are stored as
  bob, alice: the sort runs on the stored slice itself, before the copy is made, where
  \<open>QueryLiquidityPositions\<close> copies first.
\<close>

theorem rich_list_reorders_stored_positions:
  "map User (QueryLiquidityPositions (HandleEvents NewDexReadModel
      [create_p1, deposit_p1 ''tx2'' ''alice'' 1, deposit_p1 ''tx3'' ''bob'' 2]) ''p1'')
     = [''alice'', ''bob'']
   \<and> map User (QueryLiquidityPositions (snd (QueryRichList (HandleEvents NewDexReadModel
      [create_p1, deposit_p1 ''tx2'' ''alice'' 1, deposit_p1 ''tx3'' ''bob'' 2]) ''p1'' 0 10)) ''p1'')
     = [''bob'', ''alice'']"
  by (simp add: run_events QueryRichList_def rich_outer.simps rich_inner.simps)


section \<open>Creation of a pool under an id in use\<close>

text \<open>
  C10 (a \<open>pool_created\<close> event for an id in use overwrites the pool): whatever is stored
  under the id, the event returns no error, stores the pool of the event with its assets
  and fee, with both reserves and the total supply 0, and leaves the positions of every
  pool, this one included, as they are.
\<close>

theorem pool_created_overwrites:
  assumes "Contract event = ''dex-router''" and "Method event = ''pool_created''"
    and "unmarshal_pool_created (Args event) = Some args"
  shows "fst (HandleEvent dm event) = None
    \<and> pools (snd (HandleEvent dm event)) =
        (pools dm)(pc_PoolID args \<mapsto>
          \<lparr>ID = pc_PoolID args, Asset0 = pc_Asset0 args, Asset1 = pc_Asset1 args,
           Reserve0 = 0, Reserve1 = 0, Fee = pc_Fee args, TotalSupply = 0\<rparr>)
    \<and> positions (snd (HandleEvent dm event)) = positions dm"
  using assms by (simp add: HandleEvent_def handle_pool_created on_pool_created_def)

theorem pool_created_overwrites_witness:
  "pools (HandleEvents NewDexReadModel
       [create_p1, deposit_p1 ''tx2'' ''alice'' 500, recreate_p1]) ''p1''
     = Some \<lparr>ID = ''p1'', Asset0 = ''BTC'', Asset1 = ''HBD'', Reserve0 = 0, Reserve1 = 0,
         Fee = 30, TotalSupply = 0\<rparr>
   \<and> map (\<lambda>pos. (User pos, Amount pos))
       (QueryLiquidityPositions (HandleEvents NewDexReadModel
          [create_p1, deposit_p1 ''tx2'' ''alice'' 500, recreate_p1]) ''p1'')
     = [(''alice'', 500)]"
proof -
  let ?dm = "HandleEvents NewDexReadModel [create_p1, deposit_p1 ''tx2'' ''alice'' 500]"
  let ?args = "\<lparr>pc_PoolID = ''p1'', pc_Asset0 = ''BTC'', pc_Asset1 = ''HBD'', pc_Fee = 30\<rparr>"
  have split: "HandleEvents NewDexReadModel
      [create_p1, deposit_p1 ''tx2'' ''alice'' 500, recreate_p1] = snd (HandleEvent ?dm recreate_p1)"
    using HandleEvents_snoc[of NewDexReadModel "[create_p1, deposit_p1 ''tx2'' ''alice'' 500]" recreate_p1]
    by simp
  have "Contract recreate_p1 = ''dex-router''" and "Method recreate_p1 = ''pool_created''"
    and "unmarshal_pool_created (Args recreate_p1) = Some ?args"
    by (simp_all add: recreate_p1_def pool_created_event_def)
  from pool_created_overwrites[OF this, of ?dm]
  have "pools (snd (HandleEvent ?dm recreate_p1)) ''p1''
      = Some \<lparr>ID = ''p1'', Asset0 = ''BTC'', Asset1 = ''HBD'', Reserve0 = 0, Reserve1 = 0,
          Fee = 30, TotalSupply = 0\<rparr>"
    and "positions (snd (HandleEvent ?dm recreate_p1)) = positions ?dm"
    by simp_all
  then show ?thesis
    using after_deposit_alice(2) by (simp add: split QueryLiquidityPositions_def)
qed

end
